theory Spec2Isabelle
  imports
    Complex_Main
    "HOL-Library.Char_ord"
    "HOL-Library.List_Lexorder"
    "HOL-Library.Product_Lexorder"
begin

section \<open>The KITTI dataset loader of DeepLIO (deeplio/datasets/kitti.py)\<close>

text \<open>
  The module defines two classes. \<open>KittiRawData\<close> is one recording session (a drive of a
  date): two sorted file lists and two timestamp series, with single-scan retrieval and
  the windowed assembly \<open>get_data\<close>. \<open>Kitti\<close> concatenates the sessions behind one global
  index: its constructor builds a table of bins, its \<open>__getitem__\<close> searches the table and
  delegates to \<open>get_data\<close> of the session found.

  Python exceptions are values of the type \<open>error\<close>; a function that may raise returns
  \<open>error + 'a\<close>. Text written by \<open>print\<close> is a list of events returned next to the result.
  The file system, the range-image projector and the OXTS decoder are not part of the
  module: they are the fields of the record \<open>ext\<close>, passed to every function that uses them.
\<close>

subsection \<open>Python values\<close>

datatype error =
    NameError
  | UnboundLocalError
  | IndexError
  | KeyError
  | ValueError
  | OSError

text \<open>
  Indexing a list or a one-dimensional numpy array with an integer: an index in
  \<open>[0, n)\<close> reads that position, an index in \<open>[-n, 0)\<close> counts from the end, every other
  index raises \<open>IndexError\<close>.
\<close>

definition py_index :: "'a list \<Rightarrow> int \<Rightarrow> error + 'a" where
  "py_index xs i =
     (let n = int (length xs) in
      if 0 \<le> i \<and> i < n then Inr (xs ! nat i)
      else if - n \<le> i \<and> i < 0 then Inr (xs ! nat (n + i))
      else Inl IndexError)"

text \<open>\<open>range(a, b)\<close> for integers.\<close>

definition py_range :: "int \<Rightarrow> int \<Rightarrow> int list" where
  "py_range a b = [a..b - 1]"

text \<open>A list comprehension whose element expression may raise: the first error ends it.\<close>

fun map_err :: "('a \<Rightarrow> error + 'b) \<Rightarrow> 'a list \<Rightarrow> error + 'b list" where
  "map_err f [] = Inr []"
| "map_err f (x # xs) =
     (case f x of
        Inl e \<Rightarrow> Inl e
      | Inr y \<Rightarrow> (case map_err f xs of Inl e \<Rightarrow> Inl e | Inr ys \<Rightarrow> Inr (y # ys)))"

text \<open>\<open>os.path.join\<close> on POSIX paths.\<close>

definition join2 :: "string \<Rightarrow> string \<Rightarrow> string" where
  "join2 a b =
     (if b \<noteq> [] \<and> hd b = CHR ''/'' then b
      else if a = [] \<or> last a = CHR ''/'' then a @ b
      else a @ ''/'' @ b)"

definition path_join :: "string \<Rightarrow> string list \<Rightarrow> string" where
  "path_join a ps = foldl join2 a ps"

subsection \<open>Timestamps: \<open>datetime.strptime\<close> with the format \<open>%Y-%m-%d %H:%M:%S.%f\<close>\<close>

text \<open>
  A naive \<open>datetime\<close> is the tuple (year, month, day, hour, minute, second, microsecond);
  Python compares two of them field by field in this order, which is the lexicographic
  order of the tuple.
\<close>

type_synonym datetime = "int \<times> int \<times> int \<times> int \<times> int \<times> int \<times> int"

definition is_digit :: "char \<Rightarrow> bool" where
  "is_digit c = (48 \<le> (of_char c :: int) \<and> (of_char c :: int) \<le> 57)"

definition digit_val :: "char \<Rightarrow> int" where
  "digit_val c = of_char c - 48"

definition int_of_digits :: "string \<Rightarrow> int" where
  "int_of_digits ds = foldl (\<lambda>n c. 10 * n + digit_val c) 0 ds"

text \<open>The characters below 256 that the pattern \<open>\s\<close> matches in a \<open>str\<close>.\<close>

definition is_space :: "char \<Rightarrow> bool" where
  "is_space c = ((of_char c :: int) \<in> {9, 10, 11, 12, 13, 28, 29, 30, 31, 32, 133, 160})"

text \<open>At most \<open>n\<close> leading digits of a string, and the rest.\<close>

fun take_digits :: "nat \<Rightarrow> string \<Rightarrow> string \<times> string" where
  "take_digits 0 s = ([], s)"
| "take_digits (Suc n) [] = ([], [])"
| "take_digits (Suc n) (c # s) =
     (if is_digit c then (case take_digits n s of (ds, r) \<Rightarrow> (c # ds, r))
      else ([], c # s))"

text \<open>
  A numeric field of one or two digits followed by the literal \<open>sep\<close>. The directives
  \<open>%m\<close>, \<open>%H\<close>, \<open>%M\<close> and \<open>%S\<close> are alternatives of one- and two-digit patterns; as the
  character after each of them in the format is not a digit, such a field matches
  exactly when its digits are all the digits before the separator.
\<close>

definition field2 :: "char \<Rightarrow> string \<Rightarrow> (int \<times> string) option" where
  "field2 sep s =
     (case take_digits 2 s of
        (ds, r) \<Rightarrow>
          (if ds = [] then None
           else (case r of
                   [] \<Rightarrow> None
                 | c # r' \<Rightarrow> if c = sep then Some (int_of_digits ds, r') else None)))"

text \<open>
  The day, \<open>%d\<close>, has one more alternative, a space before a single digit from 1 to 9,
  and is followed by \<open>\s+\<close> (the space of the format): one or more white-space characters.
\<close>

definition field_day :: "string \<Rightarrow> (int \<times> string) option" where
  "field_day s =
     (case take_digits 2 s of
        (ds, r) \<Rightarrow>
          (if ds \<noteq> [] then Some (int_of_digits ds, r)
           else (case s of
                   c # d # r' \<Rightarrow>
                     if c = CHR '' '' \<and> is_digit d \<and> d \<noteq> CHR ''0''
                     then Some (digit_val d, r') else None
                 | _ \<Rightarrow> None)))"

definition spaces1 :: "string \<Rightarrow> string option" where
  "spaces1 s =
     (case s of
        [] \<Rightarrow> None
      | c # r \<Rightarrow> if is_space c then Some (dropWhile is_space r) else None)"

text \<open>The year, \<open>%Y\<close>, is exactly four digits, followed by the literal \<open>-\<close>.\<close>

definition field_year :: "string \<Rightarrow> (int \<times> string) option" where
  "field_year s =
     (case take_digits 4 s of
        (ds, r) \<Rightarrow>
          (if length ds \<noteq> 4 then None
           else (case r of
                   [] \<Rightarrow> None
                 | c # r' \<Rightarrow> if c = CHR ''-'' then Some (int_of_digits ds, r') else None)))"

text \<open>
  The fraction, \<open>%f\<close>, is one to six digits, padded with zeros on the right to six, and
  nothing may follow it.
\<close>

definition field_fraction :: "string \<Rightarrow> int option" where
  "field_fraction s =
     (case take_digits 6 s of
        (ds, r) \<Rightarrow>
          (if ds = [] \<or> r \<noteq> [] then None
           else Some (int_of_digits (ds @ replicate (6 - length ds) (CHR ''0'')))))"

definition leap_year :: "int \<Rightarrow> bool" where
  "leap_year y = (y mod 4 = 0 \<and> (y mod 100 \<noteq> 0 \<or> y mod 400 = 0))"

definition days_in_month :: "int \<Rightarrow> int \<Rightarrow> int" where
  "days_in_month y m =
     (if m = 2 then (if leap_year y then 29 else 28)
      else if m \<in> {4, 6, 9, 11} then 30 else 31)"

text \<open>
  The ranges of the directives and of the \<open>datetime\<close> constructor: the pattern of \<open>%S\<close>
  matches 60 and 61, which the constructor refuses. Every failure is a \<open>ValueError\<close>.
\<close>

definition valid_datetime :: "datetime \<Rightarrow> bool" where
  "valid_datetime t =
     (case t of
        (Y, m, d, H, M, S, f) \<Rightarrow>
          1 \<le> Y \<and> 1 \<le> m \<and> m \<le> 12 \<and> 1 \<le> d \<and> d \<le> days_in_month Y m
          \<and> H \<le> 23 \<and> M \<le> 59 \<and> S \<le> 59)"

definition parse_fields :: "string \<Rightarrow> datetime option" where
  "parse_fields s =
     (case field_year s of None \<Rightarrow> None | Some (Y, s1) \<Rightarrow>
      (case field2 (CHR ''-'') s1 of None \<Rightarrow> None | Some (m, s2) \<Rightarrow>
      (case field_day s2 of None \<Rightarrow> None | Some (d, s3) \<Rightarrow>
      (case spaces1 s3 of None \<Rightarrow> None | Some s4 \<Rightarrow>
      (case field2 (CHR '':'') s4 of None \<Rightarrow> None | Some (H, s5) \<Rightarrow>
      (case field2 (CHR '':'') s5 of None \<Rightarrow> None | Some (M, s6) \<Rightarrow>
      (case field2 (CHR ''.'') s6 of None \<Rightarrow> None | Some (S, s7) \<Rightarrow>
      (case field_fraction s7 of None \<Rightarrow> None | Some f \<Rightarrow>
      Some (Y, m, d, H, M, S, f)))))))))"

definition strptime :: "string \<Rightarrow> error + datetime" where
  "strptime s =
     (case parse_fields s of
        None \<Rightarrow> Inl ValueError
      | Some t \<Rightarrow> if valid_datetime t then Inr t else Inl ValueError)"

text \<open>
  The body of both loops of \<open>_load_timestamps\<close>:
  \<^verbatim>\<open>t = dt.datetime.strptime(line[:-4], '%Y-%m-%d %H:%M:%S.%f')\<close>.
  The slice \<open>line[:-4]\<close> drops the last four characters (all of them when the line has
  fewer).
\<close>

definition parse_timestamp_line :: "string \<Rightarrow> error + datetime" where
  "parse_timestamp_line line = strptime (take (length line - 4) line)"

text \<open>
  The lines the timestamp files of KITTI hold, for stating what the parser does with
  them. \<open>stamp_fields\<close> are the digit strings of a line: year, month, day, hour, minute,
  second and the nine digits of the nanoseconds. \<open>stamp_line\<close> is the line written from
  them, with its newline; \<open>truncated_stamp\<close> is the time of the line with the nanoseconds
  cut to microseconds; \<open>well_formed_stamp\<close> says that the fields have the widths of
  \<open>YYYY-MM-DD HH:MM:SS.\<close> and nine digits, and denote a date and time that exist.
\<close>

type_synonym stamp_fields = "string \<times> string \<times> string \<times> string \<times> string \<times> string \<times> string"

definition stamp_line :: "stamp_fields \<Rightarrow> string" where
  "stamp_line f =
     (case f of
        (Y, m, d, H, M, S, fs) \<Rightarrow>
          Y @ ''-'' @ m @ ''-'' @ d @ '' '' @ H @ '':'' @ M @ '':'' @ S @ ''.'' @ fs
            @ [CHR 0x0A])"

definition truncated_stamp :: "stamp_fields \<Rightarrow> datetime" where
  "truncated_stamp f =
     (case f of
        (Y, m, d, H, M, S, fs) \<Rightarrow>
          (int_of_digits Y, int_of_digits m, int_of_digits d,
           int_of_digits H, int_of_digits M, int_of_digits S, int_of_digits fs div 1000))"

definition well_formed_stamp :: "stamp_fields \<Rightarrow> bool" where
  "well_formed_stamp f =
     (case f of
        (Y, m, d, H, M, S, fs) \<Rightarrow>
          list_all is_digit Y \<and> length Y = 4
          \<and> list_all is_digit m \<and> length m = 2
          \<and> list_all is_digit d \<and> length d = 2
          \<and> list_all is_digit H \<and> length H = 2
          \<and> list_all is_digit M \<and> length M = 2
          \<and> list_all is_digit S \<and> length S = 2
          \<and> list_all is_digit fs \<and> length fs = 9
          \<and> valid_datetime (truncated_stamp f))"

subsection \<open>External collaborators\<close>

record OxtsPacket =
  ax :: real
  ay :: real
  az :: real
  wx :: real
  wy :: real
  wz :: real

text \<open>\<open>OxtsData\<close>: a packet and the pose \<open>T_w_imu\<close>, a matrix given by its rows.\<close>

record OxtsData =
  packet :: OxtsPacket
  T_w_imu :: "real list list"

text \<open>
  \<^item> \<open>glob_glob\<close>: \<open>glob.glob\<close>, the paths matching a pattern, in no particular order;
  \<^item> \<open>readlines\<close>: \<open>open(path, 'r')\<close> and \<open>f.readlines()\<close>, each line with its newline;
  \<^item> \<open>subselect_files\<close>: \<open>utils.subselect_files\<close>;
  \<^item> \<open>load_velo_scan\<close>: \<open>utils.load_velo_scan\<close>, the points of a scan file;
  \<^item> \<open>LaserScan\<close>: the constructor \<open>LaserScan(H, W, fov_up, fov_down)\<close>; the object it
    returns is used once, for \<open>open_scan(file)\<close>, \<open>do_range_projection()\<close> and the stacking
    of the three projections, so it is represented by that function of the file;
  \<^item> \<open>load_oxts_packets_and_poses\<close>: \<open>utils.load_oxts_packets_and_poses\<close>.
\<close>

record ('img, 'pts) ext =
  glob_glob :: "string \<Rightarrow> string list"
  readlines :: "string \<Rightarrow> error + string list"
  subselect_files :: "string list \<Rightarrow> int list \<Rightarrow> string list"
  load_velo_scan :: "string \<Rightarrow> error + 'pts"
  LaserScan :: "int \<Rightarrow> int \<Rightarrow> real \<Rightarrow> real \<Rightarrow> error + (string \<Rightarrow> error + 'img)"
  load_oxts_packets_and_poses :: "string list \<Rightarrow> error + OxtsData list"

subsection \<open>Configuration\<close>

text \<open>
  The configuration is a dictionary read from YAML. \<open>ds_config\<close> is the dictionary
  \<open>cfg['datasets']['kitti']\<close>: a key that may be missing is an \<open>option\<close>, and the remaining
  keys (the split names) map to a dictionary from dates to lists of drives, kept in
  insertion order.
\<close>

record ds_config =
  cfg_root_path :: "string option"
  cfg_image_width :: "int option"
  cfg_image_height :: "int option"
  cfg_fov_up :: "real option"
  cfg_fov_down :: "real option"
  cfg_splits :: "(string \<times> (string \<times> string list) list) list"

record config =
  cfg_datasets_kitti :: "ds_config option"
  cfg_sequence_size :: "int option"

definition getitem_key :: "'a option \<Rightarrow> error + 'a" where
  "getitem_key v = (case v of None \<Rightarrow> Inl KeyError | Some x \<Rightarrow> Inr x)"

subsection \<open>\<open>class KittiRawData\<close>\<close>

record 't KittiRawData =
  drive :: string
  date :: string
  calib_path :: string
  data_path :: string
  frames :: "int list option"
  image_width :: int
  image_height :: int
  fov_up :: real
  fov_down :: real
  oxts_files :: "string list"
  velo_files :: "string list"
  timestamps_imu :: "'t list"
  timestamps_velo :: "'t list"

text \<open>\<open>__len__\<close>\<close>

definition KittiRawData_len :: "'t KittiRawData \<Rightarrow> int" where
  "KittiRawData_len self = int (length (velo_files self))"

definition get_velo :: "('img, 'pts) ext \<Rightarrow> 't KittiRawData \<Rightarrow> int \<Rightarrow> error + 'pts" where
  "get_velo x self idx =
     (case py_index (velo_files self) idx of
        Inl e \<Rightarrow> Inl e
      | Inr file \<Rightarrow> load_velo_scan x file)"

definition get_velo_image :: "('img, 'pts) ext \<Rightarrow> 't KittiRawData \<Rightarrow> int \<Rightarrow> error + 'img" where
  "get_velo_image x self idx =
     (case LaserScan x (image_height self) (image_width self) (fov_up self) (fov_down self) of
        Inl e \<Rightarrow> Inl e
      | Inr scan \<Rightarrow>
          (case py_index (velo_files self) idx of
             Inl e \<Rightarrow> Inl e
           | Inr file \<Rightarrow> scan file))"

text \<open>\<open>_get_file_lists\<close>: returns the lists \<open>(oxts_files, velo_files)\<close>.\<close>

definition get_file_lists ::
  "('img, 'pts) ext \<Rightarrow> string \<Rightarrow> int list option \<Rightarrow> string list \<times> string list" where
  "get_file_lists x data_path_v frames_v =
     (let oxts = sort (glob_glob x (path_join data_path_v [''oxts'', ''data'', ''*.txt'']));
          velo = sort (glob_glob x
                   (path_join data_path_v [''velodyne_points'', ''data'', ''*.txt'']))
      in case frames_v of
           None \<Rightarrow> (oxts, velo)
         | Some fr \<Rightarrow> (subselect_files x oxts fr, subselect_files x velo fr))"

text \<open>\<open>_load_timestamps\<close>: returns \<open>(timestamps_imu, timestamps_velo)\<close>.\<close>

definition load_timestamps ::
  "('img, 'pts) ext \<Rightarrow> string \<Rightarrow> error + (datetime list \<times> datetime list)" where
  "load_timestamps x data_path_v =
     (let timestamp_file_imu = path_join data_path_v [''oxts'', ''timestamps.txt''];
          timestamp_file_velo = path_join data_path_v [''velodyne_points'', ''timestamps.txt'']
      in case readlines x timestamp_file_imu of Inl e \<Rightarrow> Inl e | Inr lines_imu \<Rightarrow>
         (case map_err parse_timestamp_line lines_imu of Inl e \<Rightarrow> Inl e | Inr ts_imu \<Rightarrow>
         (case readlines x timestamp_file_velo of Inl e \<Rightarrow> Inl e | Inr lines_velo \<Rightarrow>
         (case map_err parse_timestamp_line lines_velo of Inl e \<Rightarrow> Inl e | Inr ts_velo \<Rightarrow>
         Inr (ts_imu, ts_velo)))))"

text \<open>\<open>__init__(self, base_path, date, drive, cfg, **kwargs)\<close>, \<open>kwargs.get('frames', None)\<close>.\<close>

definition KittiRawData_init ::
  "('img, 'pts) ext \<Rightarrow> string \<Rightarrow> string \<Rightarrow> string \<Rightarrow> ds_config \<Rightarrow> int list option
     \<Rightarrow> error + datetime KittiRawData" where
  "KittiRawData_init x base_path date_v drive_v cfg frames_v =
     (let calib = path_join base_path [date_v];
          dpath = path_join base_path [date_v, drive_v]
      in case getitem_key (cfg_image_width cfg) of Inl e \<Rightarrow> Inl e | Inr w \<Rightarrow>
         (case getitem_key (cfg_image_height cfg) of Inl e \<Rightarrow> Inl e | Inr h \<Rightarrow>
         (case getitem_key (cfg_fov_up cfg) of Inl e \<Rightarrow> Inl e | Inr up \<Rightarrow>
         (case getitem_key (cfg_fov_down cfg) of Inl e \<Rightarrow> Inl e | Inr down \<Rightarrow>
         (case get_file_lists x dpath frames_v of (oxts, velo) \<Rightarrow>
         (case load_timestamps x dpath of Inl e \<Rightarrow> Inl e | Inr (ts_imu, ts_velo) \<Rightarrow>
         Inr \<lparr> drive = drive_v, date = date_v, calib_path = calib, data_path = dpath,
               frames = frames_v, image_width = w, image_height = h,
               fov_up = up, fov_down = down, oxts_files = oxts, velo_files = velo,
               timestamps_imu = ts_imu, timestamps_velo = ts_velo \<rparr>))))))"

text \<open>\<open>_load_oxt_lazy\<close>; \<open>index\<close> is an element of the index array of \<open>get_data\<close>.\<close>

definition load_oxt_lazy ::
  "('img, 'pts) ext \<Rightarrow> 't KittiRawData \<Rightarrow> nat \<Rightarrow> error + OxtsData list" where
  "load_oxt_lazy x self index =
     (case py_index (oxts_files self) (int index) of
        Inl e \<Rightarrow> Inl e
      | Inr file \<Rightarrow> load_oxts_packets_and_poses x [file])"

text \<open>
  \<open>np.argwhere(mask).flatten()\<close>: the positions of a boolean array that hold \<open>True\<close>.
  \<open>select_indices\<close> is lines 136 and 137 of the module, the mask of the two comparisons
  and its positions.
\<close>

definition argwhere :: "bool list \<Rightarrow> nat list" where
  "argwhere bs = filter (\<lambda>i. bs ! i) [0..<length bs]"

definition select_indices :: "('t::linorder) list \<Rightarrow> 't \<Rightarrow> 't \<Rightarrow> nat list" where
  "select_indices ts velo_start_ts velo_stop_ts =
     argwhere (map (\<lambda>t. t \<ge> velo_start_ts \<and> t < velo_stop_ts) ts)"

text \<open>
  The value of the local \<open>imu_values\<close>: a flat list of numbers in the branch without
  inertial data, a list of rows otherwise. \<open>imu_len\<close> is Python's \<open>len\<close> of it.
\<close>

datatype imu_values = Flat "real list" | Rows "real list list"

fun imu_len :: "imu_values \<Rightarrow> nat" where
  "imu_len (Flat xs) = length xs"
| "imu_len (Rows rs) = length rs"

text \<open>The dictionary returned by \<open>get_data\<close>.\<close>

record 'img sample =
  images :: "'img list"
  imu :: imu_values
  ground_truth :: "real list list"

datatype 't event =
    NoImuWarning int 't 't
  | NoBinsError
  | DeltaTime

definition otx0 :: "OxtsData list \<Rightarrow> error + OxtsData" where
  "otx0 otx = py_index otx 0"

definition imu_row :: "OxtsData list \<Rightarrow> error + real list" where
  "imu_row otx =
     (case otx0 otx of
        Inl e \<Rightarrow> Inl e
      | Inr d \<Rightarrow> Inr [ax (packet d), ay (packet d), az (packet d),
                     wx (packet d), wy (packet d), wz (packet d)])"

definition gt_row :: "OxtsData list \<Rightarrow> error + real list" where
  "gt_row otx = (case otx0 otx of Inl e \<Rightarrow> Inl e | Inr d \<Rightarrow> Inr (concat (T_w_imu d)))"

text \<open>
  The two timestamps of lines 131 and 132, \<open>velo_start_ts\<close> and \<open>velo_stop_ts\<close>.
\<close>

definition velo_interval :: "'t KittiRawData \<Rightarrow> int \<Rightarrow> int \<Rightarrow> error + ('t \<times> 't)" where
  "velo_interval self start_index len =
     (case py_index (timestamps_velo self) start_index of Inl e \<Rightarrow> Inl e | Inr t0 \<Rightarrow>
      (case py_index (timestamps_velo self) (start_index + len - 1) of Inl e \<Rightarrow> Inl e | Inr t1 \<Rightarrow>
      Inr (t0, t1)))"

text \<open>
  Lines 139 to 145: the branch on the selected inertial timestamps. It returns the
  events printed and the locals \<open>imu_values\<close> and \<open>gt\<close>; \<open>gt\<close> is \<open>None\<close> when the branch
  taken does not assign it.
\<close>

definition imu_branch ::
  "('img, 'pts) ext \<Rightarrow> ('t::linorder) KittiRawData \<Rightarrow> int \<Rightarrow> 't \<Rightarrow> 't \<Rightarrow> nat list
     \<Rightarrow> 't event list \<times> (error + (imu_values \<times> real list list option))" where
  "imu_branch x self start_index velo_start_ts velo_stop_ts indices =
     (if length indices = 0
      then ([NoImuWarning start_index velo_start_ts velo_stop_ts],
            Inr (Flat (replicate 6 0), None))
      else ([],
            case map_err (load_oxt_lazy x self) indices of Inl e \<Rightarrow> Inl e | Inr otxs \<Rightarrow>
            (case map_err imu_row otxs of Inl e \<Rightarrow> Inl e | Inr imu_v \<Rightarrow>
            (case map_err gt_row otxs of Inl e \<Rightarrow> Inl e | Inr gt \<Rightarrow>
            Inr (Rows imu_v, Some gt)))))"

definition get_data ::
  "('img, 'pts) ext \<Rightarrow> ('t::linorder) KittiRawData \<Rightarrow> int \<Rightarrow> int
     \<Rightarrow> 't event list \<times> (error + 'img sample)" where
  "get_data x self start_index len =
     (case velo_interval self start_index len of
        Inl e \<Rightarrow> ([], Inl e)
      | Inr (velo_start_ts, velo_stop_ts) \<Rightarrow>
     (case map_err (get_velo_image x self) (py_range start_index (start_index + len)) of
        Inl e \<Rightarrow> ([], Inl e)
      | Inr imgs \<Rightarrow>
     (let indices = select_indices (timestamps_imu self) velo_start_ts velo_stop_ts in
      case imu_branch x self start_index velo_start_ts velo_stop_ts indices of
        (evs, Inl e) \<Rightarrow> (evs, Inl e)
      | (evs, Inr (imu_v, gt_opt)) \<Rightarrow>
          (case gt_opt of
             None \<Rightarrow> (evs, Inl UnboundLocalError)
           | Some gt \<Rightarrow>
               (evs, Inr \<lparr> images = imgs, imu = imu_v, ground_truth = gt \<rparr>)))))"

subsection \<open>\<open>class Kitti\<close>\<close>

text \<open>
  The names the two methods of \<open>Kitti\<close> read from the module's global namespace and do not
  define themselves: \<open>cfg\<close>, read by \<open>__init__\<close>, and \<open>time\<close>, read by \<open>__getitem__\<close>. The module
  binds both only in the block under \<open>if __name__ == "__main__"\<close>, \<open>time\<close> by an import and
  \<open>cfg\<close> by the assignment of the configuration loaded from YAML. \<open>global_cfg\<close> is the
  value bound to \<open>cfg\<close>, if any; \<open>global_time\<close> tells whether \<open>time\<close> is bound.
\<close>

record globals =
  global_cfg :: "config option"
  global_time :: bool

text \<open>The attributes of a \<open>Kitti\<close> object; \<open>self_length\<close> is the attribute \<open>length\<close>.\<close>

record ('t, 'tr) Kitti =
  transform :: 'tr
  ds_type :: string
  seq_size :: int
  dataset :: "'t KittiRawData list"
  length_each_drive :: "int list"
  bins :: "(int \<times> int) list"
  self_length :: int

text \<open>The variables the two nested loops of \<open>__init__\<close> update.\<close>

record 't loop_state =
  st_dataset :: "'t KittiRawData list"
  st_length_each_drive :: "int list"
  st_bins :: "(int \<times> int) list"
  last_bin_end :: int

text \<open>The body of the inner loop, lines 177 to 187.\<close>

definition add_drive ::
  "('img, 'pts) ext \<Rightarrow> string \<Rightarrow> ds_config \<Rightarrow> int \<Rightarrow> string \<Rightarrow> string
     \<Rightarrow> datetime loop_state \<Rightarrow> error + datetime loop_state" where
  "add_drive x root_path ds_cfg seq date_v drive_v st =
     (case KittiRawData_init x root_path date_v drive_v ds_cfg None of
        Inl e \<Rightarrow> Inl e
      | Inr ds \<Rightarrow>
          (let len = KittiRawData_len ds;
               bin_start = last_bin_end st + 1;
               bin_end = bin_start + len - seq
           in Inr \<lparr> st_dataset = st_dataset st @ [ds],
                    st_length_each_drive = st_length_each_drive st @ [len],
                    st_bins = st_bins st @ [(bin_start, bin_end)],
                    last_bin_end = bin_end \<rparr>))"

fun drives_loop ::
  "('img, 'pts) ext \<Rightarrow> string \<Rightarrow> ds_config \<Rightarrow> int \<Rightarrow> string \<Rightarrow> string list
     \<Rightarrow> datetime loop_state \<Rightarrow> error + datetime loop_state" where
  "drives_loop x root_path ds_cfg seq date_v [] st = Inr st"
| "drives_loop x root_path ds_cfg seq date_v (drive_v # drives) st =
     (case add_drive x root_path ds_cfg seq date_v drive_v st of
        Inl e \<Rightarrow> Inl e
      | Inr st' \<Rightarrow> drives_loop x root_path ds_cfg seq date_v drives st')"

fun dates_loop ::
  "('img, 'pts) ext \<Rightarrow> string \<Rightarrow> ds_config \<Rightarrow> int \<Rightarrow> (string \<times> string list) list
     \<Rightarrow> datetime loop_state \<Rightarrow> error + datetime loop_state" where
  "dates_loop x root_path ds_cfg seq [] st = Inr st"
| "dates_loop x root_path ds_cfg seq ((date_v, drives) # items) st =
     (case drives_loop x root_path ds_cfg seq date_v drives st of
        Inl e \<Rightarrow> Inl e
      | Inr st' \<Rightarrow> dates_loop x root_path ds_cfg seq items st')"

text \<open>\<open>bins.flatten()\<close>: the rows of the two-column array, one after the other.\<close>

definition flatten_bins :: "(int \<times> int) list \<Rightarrow> int list" where
  "flatten_bins bs = concat (map (\<lambda>b. [fst b, snd b]) bs)"

text \<open>
  \<open>__init__(self, config, ds_type, transform)\<close>, in the global namespace \<open>g\<close>. The body
  reads the global \<open>cfg\<close> where the parameter is called \<open>config\<close>. The messages sent to
  the logger are left out.
\<close>

definition Kitti_init ::
  "('img, 'pts) ext \<Rightarrow> globals \<Rightarrow> config \<Rightarrow> string \<Rightarrow> 'tr
     \<Rightarrow> error + (datetime, 'tr) Kitti" where
  "Kitti_init x g config ds_type_v transform_v =
     (case global_cfg g of None \<Rightarrow> Inl NameError | Some cfg \<Rightarrow>
     (case getitem_key (cfg_datasets_kitti cfg) of Inl e \<Rightarrow> Inl e | Inr ds_cfg \<Rightarrow>
     (case getitem_key (cfg_root_path ds_cfg) of Inl e \<Rightarrow> Inl e | Inr root_path \<Rightarrow>
     (case getitem_key (cfg_sequence_size cfg) of Inl e \<Rightarrow> Inl e | Inr seq \<Rightarrow>
     (case getitem_key (map_of (cfg_splits ds_cfg) ds_type_v) of Inl e \<Rightarrow> Inl e | Inr items \<Rightarrow>
     (case dates_loop x root_path ds_cfg seq items
             \<lparr> st_dataset = [], st_length_each_drive = [], st_bins = [], last_bin_end = - 1 \<rparr> of
        Inl e \<Rightarrow> Inl e
      | Inr st \<Rightarrow>
     (case py_index (flatten_bins (st_bins st)) (- 1) of Inl e \<Rightarrow> Inl e | Inr last_end \<Rightarrow>
        Inr \<lparr> transform = transform_v, ds_type = ds_type_v, seq_size = seq,
              dataset = st_dataset st, length_each_drive = st_length_each_drive st,
              bins = st_bins st, self_length = last_end + 1 \<rparr>)))))))"

text \<open>\<open>__len__\<close>\<close>

definition Kitti_len :: "('t, 'tr) Kitti \<Rightarrow> int" where
  "Kitti_len self = self_length self"

text \<open>
  The search loop of \<open>__getitem__\<close>, lines 213 to 221: the pair \<open>(idx, num_drive)\<close> after
  the loop, \<open>i\<close> being the position of the first bin of the list.
\<close>

fun find_bin :: "(int \<times> int) list \<Rightarrow> int \<Rightarrow> int \<Rightarrow> int \<times> int" where
  "find_bin [] index i = (- 1, - 1)"
| "find_bin ((bin_start, bin_end) # rest) index i =
     (if bin_start \<le> index \<and> index \<le> bin_end then (index - bin_start, i)
      else find_bin rest index (i + 1))"

text \<open>
  \<open>__getitem__(self, index)\<close> for an integer \<open>index\<close>, in the global namespace \<open>g\<close>. When
  no bin is found it prints a message and returns \<open>None\<close>. Otherwise it reads the clock
  through the global name \<open>time\<close>, calls \<open>get_data\<close> and prints the time elapsed.
\<close>

definition Kitti_getitem ::
  "('img, 'pts) ext \<Rightarrow> globals \<Rightarrow> ('t::linorder, 'tr) Kitti \<Rightarrow> int
     \<Rightarrow> 't event list \<times> (error + 'img sample option)" where
  "Kitti_getitem x g self index =
     (case find_bin (bins self) index 0 of
        (idx, num_drive) \<Rightarrow>
          if idx < 0 \<or> num_drive < 0 then ([NoBinsError], Inr None)
          else if \<not> global_time g then ([], Inl NameError)
          else (case py_index (dataset self) num_drive of
                  Inl e \<Rightarrow> ([], Inl e)
                | Inr ds \<Rightarrow>
                    (case get_data x ds idx (seq_size self) of
                       (evs, Inl e) \<Rightarrow> (evs, Inl e)
                     | (evs, Inr d) \<Rightarrow> (evs @ [DeltaTime], Inr (Some d)))))"

subsection \<open>A small data set\<close>

text \<open>
  A storage root \<open>/k\<close> with one date, \<open>d\<close>, and three drives: drive \<open>1\<close> with five scans
  and four inertial samples, drive \<open>2\<close> with four scans and one inertial sample, later
  than its first three scans, drive \<open>3\<close> with one scan and no inertial sample. The split
  \<open>train\<close> has the drives 1 and 2, the split \<open>val\<close> the drive 1, the split \<open>mix\<close> the drives
  1, 3 and 1 again. Images and point clouds are represented by the name of the file they
  are read from.
\<close>

definition demo_fields :: "string \<Rightarrow> string \<Rightarrow> stamp_fields" where
  "demo_fields secs nanos = (''2011'', ''09'', ''26'', ''13'', ''02'', secs, nanos)"

definition demo_velo1 :: "stamp_fields list" where
  "demo_velo1 =
     [demo_fields ''20'' ''000000000'', demo_fields ''21'' ''000000999'',
      demo_fields ''22'' ''000000000'', demo_fields ''23'' ''000000000'',
      demo_fields ''24'' ''000000000'']"

definition demo_imu1 :: "stamp_fields list" where
  "demo_imu1 =
     [demo_fields ''20'' ''100000445'', demo_fields ''20'' ''600000999'',
      demo_fields ''21'' ''200000001'', demo_fields ''23'' ''500000000'']"

definition demo_velo2 :: "stamp_fields list" where
  "demo_velo2 =
     [demo_fields ''40'' ''000000000'', demo_fields ''41'' ''000000000'',
      demo_fields ''42'' ''000000000'', demo_fields ''43'' ''000000000'']"

definition demo_imu2 :: "stamp_fields list" where
  "demo_imu2 = [demo_fields ''42'' ''500000000'']"

definition demo_velo3 :: "stamp_fields list" where
  "demo_velo3 = [demo_fields ''50'' ''000000000'']"

definition demo_glob :: "string \<Rightarrow> string list" where
  "demo_glob pattern =
     (if pattern = ''/k/d/1/velodyne_points/data/*.txt''
      then [''v13'', ''v10'', ''v14'', ''v11'', ''v12'']
      else if pattern = ''/k/d/1/oxts/data/*.txt''
      then [''o11'', ''o10'', ''o13'', ''o12'']
      else if pattern = ''/k/d/2/velodyne_points/data/*.txt''
      then [''v20'', ''v21'', ''v22'', ''v23'']
      else if pattern = ''/k/d/2/oxts/data/*.txt''
      then [''o20'']
      else if pattern = ''/k/d/3/velodyne_points/data/*.txt''
      then [''v30'']
      else [])"

definition demo_readlines :: "string \<Rightarrow> error + string list" where
  "demo_readlines path =
     (if path = ''/k/d/1/velodyne_points/timestamps.txt'' then Inr (map stamp_line demo_velo1)
      else if path = ''/k/d/1/oxts/timestamps.txt'' then Inr (map stamp_line demo_imu1)
      else if path = ''/k/d/2/velodyne_points/timestamps.txt'' then Inr (map stamp_line demo_velo2)
      else if path = ''/k/d/2/oxts/timestamps.txt'' then Inr (map stamp_line demo_imu2)
      else if path = ''/k/d/3/velodyne_points/timestamps.txt'' then Inr (map stamp_line demo_velo3)
      else if path = ''/k/d/3/oxts/timestamps.txt'' then Inr []
      else Inl OSError)"

definition demo_oxts :: "string list \<Rightarrow> error + OxtsData list" where
  "demo_oxts files =
     Inr (map (\<lambda>f. \<lparr> packet = \<lparr> ax = 1, ay = 2, az = 3, wx = 4, wy = 5, wz = 6 \<rparr>,
                       T_w_imu = [[1, 0], [0, 1]] \<rparr>) files)"

definition demo_ext :: "(string, string) ext" where
  "demo_ext =
     \<lparr> glob_glob = demo_glob,
       readlines = demo_readlines,
       subselect_files = (\<lambda>files fr. files),
       load_velo_scan = (\<lambda>file. Inr file),
       LaserScan = (\<lambda>h w up down. Inr (\<lambda>file. Inr file)),
       load_oxts_packets_and_poses = demo_oxts \<rparr>"

definition demo_ds_config :: ds_config where
  "demo_ds_config =
     \<lparr> cfg_root_path = Some ''/k'',
       cfg_image_width = Some 64,
       cfg_image_height = Some 16,
       cfg_fov_up = Some 3,
       cfg_fov_down = Some (- 25),
       cfg_splits = [(''train'', [(''d'', [''1'', ''2''])]), (''val'', [(''d'', [''1''])]),
                     (''mix'', [(''d'', [''1'', ''3'', ''1''])])] \<rparr>"

definition demo_config :: config where
  "demo_config = \<lparr> cfg_datasets_kitti = Some demo_ds_config, cfg_sequence_size = Some 3 \<rparr>"

text \<open>The global namespace when the module runs as a script, and when it is imported.\<close>

definition script_globals :: "config \<Rightarrow> globals" where
  "script_globals c = \<lparr> global_cfg = Some c, global_time = True \<rparr>"

definition import_globals :: globals where
  "import_globals = \<lparr> global_cfg = None, global_time = False \<rparr>"

definition demo_drive1 :: "datetime KittiRawData" where
  "demo_drive1 =
     \<lparr> drive = ''1'', date = ''d'', calib_path = ''/k/d'', data_path = ''/k/d/1'',
       frames = None, image_width = 64, image_height = 16, fov_up = 3, fov_down = - 25,
       oxts_files = [''o10'', ''o11'', ''o12'', ''o13''],
       velo_files = [''v10'', ''v11'', ''v12'', ''v13'', ''v14''],
       timestamps_imu =
         [(2011, 9, 26, 13, 2, 20, 100000), (2011, 9, 26, 13, 2, 20, 600000),
          (2011, 9, 26, 13, 2, 21, 200000), (2011, 9, 26, 13, 2, 23, 500000)],
       timestamps_velo =
         [(2011, 9, 26, 13, 2, 20, 0), (2011, 9, 26, 13, 2, 21, 0), (2011, 9, 26, 13, 2, 22, 0),
          (2011, 9, 26, 13, 2, 23, 0), (2011, 9, 26, 13, 2, 24, 0)] \<rparr>"

definition demo_drive2 :: "datetime KittiRawData" where
  "demo_drive2 =
     \<lparr> drive = ''2'', date = ''d'', calib_path = ''/k/d'', data_path = ''/k/d/2'',
       frames = None, image_width = 64, image_height = 16, fov_up = 3, fov_down = - 25,
       oxts_files = [''o20''],
       velo_files = [''v20'', ''v21'', ''v22'', ''v23''],
       timestamps_imu = [(2011, 9, 26, 13, 2, 42, 500000)],
       timestamps_velo =
         [(2011, 9, 26, 13, 2, 40, 0), (2011, 9, 26, 13, 2, 41, 0), (2011, 9, 26, 13, 2, 42, 0),
          (2011, 9, 26, 13, 2, 43, 0)] \<rparr>"

definition demo_kitti :: "(datetime, unit option) Kitti" where
  "demo_kitti =
     \<lparr> transform = None, ds_type = ''train'', seq_size = 3,
       dataset = [demo_drive1, demo_drive2], length_each_drive = [5, 4],
       bins = [(0, 2), (3, 4)], self_length = 5 \<rparr>"

text \<open>The data set of the split \<open>val\<close>: one session with five scans.\<close>

definition demo_val :: "(datetime, unit option) Kitti" where
  "demo_val =
     \<lparr> transform = None, ds_type = ''val'', seq_size = 3,
       dataset = [demo_drive1], length_each_drive = [5],
       bins = [(0, 2)], self_length = 3 \<rparr>"

text \<open>The data set of the split \<open>train\<close> when the configured window length is 5.\<close>

definition demo_long :: "(datetime, unit option) Kitti" where
  "demo_long =
     \<lparr> transform = None, ds_type = ''train'', seq_size = 5,
       dataset = [demo_drive1, demo_drive2], length_each_drive = [5, 4],
       bins = [(0, 0), (1, 0)], self_length = 1 \<rparr>"



text \<open>
  The session of the scenario with scan timestamps 0, 10, 20, 30 and inertial timestamps
  1, 5, 9, 15; here a timestamp is an integer.
\<close>

definition scenario_session :: "int KittiRawData" where
  "scenario_session =
     \<lparr> drive = ''1'', date = ''d'', calib_path = ''/k/d'', data_path = ''/k/d/1'',
       frames = None, image_width = 64, image_height = 16, fov_up = 3, fov_down = - 25,
       oxts_files = [''o0'', ''o1'', ''o2'', ''o3''],
       velo_files = [''v0'', ''v1'', ''v2'', ''v3''],
       timestamps_imu = [1, 5, 9, 15],
       timestamps_velo = [0, 10, 20, 30] \<rparr>"

subsection \<open>The bin table as a function of the session lengths\<close>

text \<open>
  \<open>bins_from w s lens\<close> is the table the loop of \<open>__init__\<close> appends for sessions of the
  lengths \<open>lens\<close> when the next bin starts at \<open>s\<close> and the window length is \<open>w\<close>;
  \<open>windows w lens\<close> is the sum of \<open>l - w + 1\<close> over the lengths. They are used to state and
  prove the properties of the loop, not by the model of the code.
\<close>

fun bins_from :: "int \<Rightarrow> int \<Rightarrow> int list \<Rightarrow> (int \<times> int) list" where
  "bins_from w s [] = []"
| "bins_from w s (l # ls) = (s, s + l - w) # bins_from w (s + l - w + 1) ls"

definition windows :: "int \<Rightarrow> int list \<Rightarrow> int" where
  "windows w lens = sum_list (map (\<lambda>l. l - w + 1) lens)"

definition in_bin :: "int \<Rightarrow> int \<times> int \<Rightarrow> bool" where
  "in_bin index b = (fst b \<le> index \<and> index \<le> snd b)"

text \<open>
  \<open>extends w st st' new\<close>: the loop state \<open>st'\<close> is \<open>st\<close> after the sessions \<open>new\<close> have been
  appended, in this order.
\<close>

definition extends ::
  "int \<Rightarrow> datetime loop_state \<Rightarrow> datetime loop_state \<Rightarrow> datetime KittiRawData list \<Rightarrow> bool" where
  "extends w st st' new =
     (st_dataset st' = st_dataset st @ new
      \<and> st_length_each_drive st' = st_length_each_drive st @ map KittiRawData_len new
      \<and> st_bins st' = st_bins st
            @ bins_from w (last_bin_end st + 1) (map KittiRawData_len new)
      \<and> last_bin_end st' = last_bin_end st + windows w (map KittiRawData_len new))"

section \<open>Properties\<close>

subsection \<open>Auxiliary facts\<close>

lemma py_index_neg:
  "- int (length xs) \<le> i \<Longrightarrow> i < 0 \<Longrightarrow> py_index xs i = Inr (xs ! nat (int (length xs) + i))"
  by (simp add: py_index_def)

lemma py_index_nonneg:
  "0 \<le> i \<Longrightarrow> i < int (length xs) \<Longrightarrow> py_index xs i = Inr (xs ! nat i)"
  by (simp add: py_index_def)

lemma map_err_length: "map_err f xs = Inr ys \<Longrightarrow> length ys = length xs"
  by (induction xs arbitrary: ys) (auto split: sum.splits)

lemma windows_Nil: "windows w [] = 0"
  by (simp add: windows_def)

lemma windows_Cons: "windows w (l # ls) = l - w + 1 + windows w ls"
  by (simp add: windows_def)

lemma windows_append: "windows w (xs @ ys) = windows w xs + windows w ys"
  by (simp add: windows_def)

lemma windows_nonneg: "\<forall>l\<in>set ls. w \<le> l \<Longrightarrow> 0 \<le> windows w ls"
  by (induction ls) (auto simp: windows_Nil windows_Cons)

lemma length_bins_from: "length (bins_from w s ls) = length ls"
  by (induction ls arbitrary: s) auto

lemma bins_from_append:
  "bins_from w s (xs @ ys) = bins_from w s xs @ bins_from w (s + windows w xs) ys"
  by (induction xs arbitrary: s) (auto simp: windows_Nil windows_Cons algebra_simps)

lemma bins_from_nth:
  "k < length ls \<Longrightarrow>
   bins_from w s ls ! k
     = (s + windows w (take k ls), s + windows w (take k ls) + ls ! k - w)"
proof (induction ls arbitrary: s k)
  case Nil
  then show ?case by simp
next
  case (Cons l ls)
  show ?case
  proof (cases k)
    case 0
    then show ?thesis by (simp add: windows_Nil)
  next
    case (Suc j)
    with Cons.prems have "j < length ls" by simp
    from Cons.IH [OF this, of "s + l - w + 1"] Suc
    show ?thesis by (simp add: windows_Cons algebra_simps)
  qed
qed

lemma bins_from_last:
  "ls \<noteq> [] \<Longrightarrow> snd (last (bins_from w s ls)) = s - 1 + windows w ls"
proof (induction ls arbitrary: s)
  case Nil
  then show ?case by simp
next
  case (Cons l ls)
  show ?case
  proof (cases ls)
    case Nil
    then show ?thesis by (simp add: windows_Cons windows_Nil)
  next
    case (Cons l' ls')
    then have ne: "ls \<noteq> []" by simp
    then have "bins_from w (s + l - w + 1) ls \<noteq> []"
      using length_bins_from [of w "s + l - w + 1" ls] by auto
    with Cons.IH [OF ne, of "s + l - w + 1"] show ?thesis
      by (simp add: windows_Cons)
  qed
qed


lemma bins_from_range:
  "\<forall>l\<in>set ls. w \<le> l \<Longrightarrow> b \<in> set (bins_from w s ls) \<Longrightarrow>
   s \<le> fst b \<and> snd b \<le> s - 1 + windows w ls"
proof (induction ls arbitrary: s)
  case Nil
  then show ?case by simp
next
  case (Cons l ls)
  have nn: "0 \<le> windows w ls"
    using Cons.prems(1) by (simp add: windows_nonneg)
  have wl: "w \<le> l" using Cons.prems(1) by simp
  from Cons.prems(2) consider "b = (s, s + l - w)" | "b \<in> set (bins_from w (s + l - w + 1) ls)"
    by auto
  then show ?case
  proof cases
    case 1
    with nn show ?thesis by (simp add: windows_Cons)
  next
    case 2
    from Cons.IH [OF _ 2] Cons.prems(1)
    have "s + l - w + 1 \<le> fst b \<and> snd b \<le> s + l - w + 1 - 1 + windows w ls" by simp
    with wl show ?thesis by (simp add: windows_Cons)
  qed
qed


lemma find_bin_none:
  "\<forall>b\<in>set bs. \<not> in_bin index b \<Longrightarrow> find_bin bs index i = (- 1, - 1)"
  by (induction bs index i rule: find_bin.induct) (auto simp: in_bin_def)


lemma find_bin_sound:
  "find_bin bs index i = (idx, num_drive) \<Longrightarrow> 0 \<le> i \<Longrightarrow> 0 \<le> num_drive \<Longrightarrow>
   \<exists>k<length bs. num_drive = i + int k \<and> in_bin index (bs ! k)"
proof (induction bs index i rule: find_bin.induct)
  case (1 index i)
  then show ?case by simp
next
  case (2 bin_start bin_end rest index i)
  show ?case
  proof (cases "bin_start \<le> index \<and> index \<le> bin_end")
    case True
    with "2.prems" show ?thesis by (intro exI [of _ 0]) (auto simp: in_bin_def)
  next
    case False
    with "2.prems" have "find_bin rest index (i + 1) = (idx, num_drive)" by simp
    from "2.IH" [OF False this] "2.prems" obtain k where
      "k < length rest" "num_drive = i + 1 + int k" "in_bin index (rest ! k)" by auto
    then show ?thesis by (intro exI [of _ "Suc k"]) simp
  qed
qed

subsection \<open>Single-scan retrieval\<close>

text \<open>
  Claim C10. For a session with \<open>N\<close> scans and an index \<open>idx\<close> with \<open>-N \<le> idx < 0\<close>, reading
  \<open>velo_files[idx]\<close> does not raise \<open>IndexError\<close>: it reads the file of scan \<open>N + idx\<close>.
  \<open>get_velo\<close> returns what the loader returns for that file. \<open>get_velo_image\<close> returns what
  the projector, once constructed, returns for that file, and fails only where the
  constructor of the projector or the projection itself fails. Both return what they
  return for the index \<open>N + idx\<close>.
\<close>

theorem negative_index_wraps:
  assumes "- KittiRawData_len self \<le> idx" and "idx < 0"
  shows "py_index (velo_files self) idx
           = Inr (velo_files self ! nat (KittiRawData_len self + idx))
       \<and> get_velo x self idx
           = load_velo_scan x (velo_files self ! nat (KittiRawData_len self + idx))
       \<and> get_velo x self idx = get_velo x self (KittiRawData_len self + idx)
       \<and> get_velo_image x self idx
           = (case LaserScan x (image_height self) (image_width self)
                     (fov_up self) (fov_down self) of
                Inl e \<Rightarrow> Inl e
              | Inr scan \<Rightarrow> scan (velo_files self ! nat (KittiRawData_len self + idx)))
       \<and> get_velo_image x self idx = get_velo_image x self (KittiRawData_len self + idx)"
proof -
  let ?n = "KittiRawData_len self"
  have n: "?n = int (length (velo_files self))"
    by (simp add: KittiRawData_len_def)
  have a: "py_index (velo_files self) idx = Inr (velo_files self ! nat (?n + idx))"
    using assms by (simp add: n py_index_neg)
  have b: "py_index (velo_files self) (?n + idx) = Inr (velo_files self ! nat (?n + idx))"
    using assms by (simp add: n py_index_nonneg)
  show ?thesis
    unfolding get_velo_def get_velo_image_def a b by (simp split: sum.splits)
qed

theorem negative_index_wraps_witness:
  "- KittiRawData_len demo_drive1 \<le> - 2 \<and> (- 2 :: int) < 0
   \<and> py_index (velo_files demo_drive1) (- 2) = Inr ''v13''
   \<and> get_velo demo_ext demo_drive1 (- 2) = Inr ''v13''
   \<and> get_velo_image demo_ext demo_drive1 (- 2) = Inr ''v13''
   \<and> get_velo_image demo_ext demo_drive1 (- 2) = get_velo_image demo_ext demo_drive1 3"
proof -
  have h1: "- KittiRawData_len demo_drive1 \<le> - 2"
    by (simp add: KittiRawData_len_def demo_drive1_def)
  have h2: "(- 2 :: int) < 0" by simp
  have n: "KittiRawData_len demo_drive1 + - 2 = 3"
    by (simp add: KittiRawData_len_def demo_drive1_def)
  have fl: "velo_files demo_drive1 ! nat 3 = ''v13''"
    by (simp add: demo_drive1_def)
  have f: "load_velo_scan demo_ext ''v13'' = Inr ''v13''"
    by (simp add: demo_ext_def)
  have img: "(case LaserScan demo_ext (image_height demo_drive1) (image_width demo_drive1)
                     (fov_up demo_drive1) (fov_down demo_drive1) of
                Inl e \<Rightarrow> Inl e
              | Inr scan \<Rightarrow> scan ''v13'') = Inr ''v13''"
    by (simp add: demo_ext_def)
  note t = negative_index_wraps [OF h1 h2, of demo_ext, unfolded n fl f img]
  from t h1 h2 show ?thesis by blast
qed

subsection \<open>The constructor of \<open>Kitti\<close> and the global name \<open>cfg\<close>\<close>

text \<open>
  Claim C9. The constructor \<open>Kitti(config, ds_type, transform)\<close> never reads its parameter
  \<open>config\<close>: its result is the same for every value of it. It reads the global name \<open>cfg\<close>
  instead, so that in a namespace where \<open>cfg\<close> is not bound the construction raises
  \<open>NameError\<close>, whatever \<open>config\<close> is.
\<close>

theorem init_reads_global_cfg:
  "Kitti_init x g config ds_type_v transform_v = Kitti_init x g config' ds_type_v transform_v
   \<and> (global_cfg g = None \<longrightarrow> Kitti_init x g config ds_type_v transform_v = Inl NameError)"
  by (simp add: Kitti_init_def)

theorem init_reads_global_cfg_witness:
  "global_cfg import_globals = None
   \<and> Kitti_init demo_ext import_globals demo_config ''train'' (None :: unit option)
       = Inl NameError"
  using init_reads_global_cfg [of demo_ext import_globals demo_config "''train''"
          "None :: unit option" demo_config]
  by (simp add: import_globals_def)

subsection \<open>The window query \<open>get_data\<close>\<close>

lemma velo_interval_valid:
  assumes "0 \<le> start_index" and "1 \<le> len"
    and "start_index + len \<le> int (length (timestamps_velo self))"
  shows "velo_interval self start_index len
           = Inr (timestamps_velo self ! nat start_index,
                  timestamps_velo self ! nat (start_index + len - 1))"
proof -
  have a: "py_index (timestamps_velo self) start_index
             = Inr (timestamps_velo self ! nat start_index)"
    using assms by (intro py_index_nonneg) auto
  have b: "py_index (timestamps_velo self) (start_index + len - 1)
             = Inr (timestamps_velo self ! nat (start_index + len - 1))"
    using assms by (intro py_index_nonneg) auto
  show ?thesis
    unfolding velo_interval_def a b by simp
qed

lemma select_indices_sorted: "sorted_wrt (<) (select_indices ts t0 t1)"
  by (simp add: select_indices_def argwhere_def sorted_wrt_filter)

lemma select_indices_set:
  "set (select_indices ts t0 t1) = {i. i < length ts \<and> t0 \<le> ts ! i \<and> ts ! i < t1}"
  by (auto simp: select_indices_def argwhere_def)

text \<open>A sample that \<open>get_data\<close> returns was assembled in the branch with inertial data.\<close>

lemma get_data_rows:
  assumes "get_data x self start_index len = (evs, Inr d)"
  shows "\<exists>t0 t1 otxs rows gt.
           velo_interval self start_index len = Inr (t0, t1)
         \<and> map_err (load_oxt_lazy x self) (select_indices (timestamps_imu self) t0 t1) = Inr otxs
         \<and> map_err imu_row otxs = Inr rows \<and> map_err gt_row otxs = Inr gt
         \<and> imu d = Rows rows \<and> ground_truth d = gt"
  using assms
  by (auto simp: get_data_def imu_branch_def Let_def
           split: sum.splits prod.splits option.splits if_splits)

text \<open>
  What \<open>get_data\<close> does once the two timestamps are read: it decodes the scans of the
  window, then the inertial samples at exactly the selected indices, in their order.
\<close>

lemma get_data_decodes:
  assumes "velo_interval self start_index len = Inr (t0, t1)"
  shows "get_data x self start_index len
       = (case map_err (get_velo_image x self) (py_range start_index (start_index + len)) of
            Inl e \<Rightarrow> ([], Inl e)
          | Inr imgs \<Rightarrow>
              (if select_indices (timestamps_imu self) t0 t1 = []
               then ([NoImuWarning start_index t0 t1], Inl UnboundLocalError)
               else (case map_err (load_oxt_lazy x self)
                            (select_indices (timestamps_imu self) t0 t1) of
                       Inl e \<Rightarrow> ([], Inl e)
                     | Inr otxs \<Rightarrow>
                         (case map_err imu_row otxs of
                            Inl e \<Rightarrow> ([], Inl e)
                          | Inr rows \<Rightarrow>
                              (case map_err gt_row otxs of
                                 Inl e \<Rightarrow> ([], Inl e)
                               | Inr gt \<Rightarrow>
                                   ([], Inr \<lparr> images = imgs, imu = Rows rows,
                                              ground_truth = gt \<rparr>))))))"
  using assms
  by (simp add: get_data_def imu_branch_def Let_def split: sum.splits)

text \<open>
  Claim C2. For a window query with a valid start and length (\<open>0 \<le> start_index\<close>,
  \<open>1 \<le> len\<close>, \<open>start_index + len\<close> at most the number of scan timestamps), the interval is
  \<open>t0 = timestamps_velo[start_index]\<close> and \<open>t1 = timestamps_velo[start_index + len - 1]\<close>, and
  the selected inertial indices are in strictly ascending order and are exactly the
  indices \<open>i\<close> with \<open>t0 \<le> timestamps_imu[i] < t1\<close>: the start is included, the stop is
  excluded. \<open>get_data\<close> decodes the inertial samples at these indices and no others, in
  this order, and the readings of a returned sample are theirs. In the scenario with
  scan timestamps 0, 10, 20, 30, a window of length 2 at index 0 and inertial timestamps
  1, 5, 9, 15, the interval is \<open>[0, 10)\<close> and the indices selected are those of 1, 5 and 9;
  15 is excluded.
\<close>

theorem inertial_selection_half_open:
  assumes "0 \<le> start_index" and "1 \<le> len"
    and "start_index + len \<le> int (length (timestamps_velo self))"
  shows "(\<exists>t0 t1 sel.
           velo_interval self start_index len = Inr (t0, t1)
         \<and> t0 = timestamps_velo self ! nat start_index
         \<and> t1 = timestamps_velo self ! nat (start_index + len - 1)
         \<and> sel = select_indices (timestamps_imu self) t0 t1
         \<and> sorted_wrt (<) sel
         \<and> set sel = {i. i < length (timestamps_imu self)
                          \<and> t0 \<le> timestamps_imu self ! i \<and> timestamps_imu self ! i < t1}
         \<and> get_data x self start_index len
             = (case map_err (get_velo_image x self)
                       (py_range start_index (start_index + len)) of
                  Inl e \<Rightarrow> ([], Inl e)
                | Inr imgs \<Rightarrow>
                    (if sel = []
                     then ([NoImuWarning start_index t0 t1], Inl UnboundLocalError)
                     else (case map_err (load_oxt_lazy x self) sel of
                             Inl e \<Rightarrow> ([], Inl e)
                           | Inr otxs \<Rightarrow>
                               (case map_err imu_row otxs of
                                  Inl e \<Rightarrow> ([], Inl e)
                                | Inr rows \<Rightarrow>
                                    (case map_err gt_row otxs of
                                       Inl e \<Rightarrow> ([], Inl e)
                                     | Inr gt \<Rightarrow>
                                         ([], Inr \<lparr> images = imgs, imu = Rows rows,
                                                    ground_truth = gt \<rparr>))))))
         \<and> (\<forall>evs d. get_data x self start_index len = (evs, Inr d) \<longrightarrow>
                (\<exists>otxs rows. map_err (load_oxt_lazy x self) sel = Inr otxs
                    \<and> map_err imu_row otxs = Inr rows \<and> imu d = Rows rows)))
       \<and> (velo_interval scenario_session 0 2 = Inr (0, 10)
         \<and> select_indices (timestamps_imu scenario_session) 0 10 = [0, 1, 2]
         \<and> map (\<lambda>i. timestamps_imu scenario_session ! i) [0, 1, 2] = [1, 5, 9])"
proof -
  let ?t0 = "timestamps_velo self ! nat start_index"
  let ?t1 = "timestamps_velo self ! nat (start_index + len - 1)"
  let ?sel = "select_indices (timestamps_imu self) ?t0 ?t1"
  note vi = velo_interval_valid [OF assms]
  note dec = get_data_decodes [OF vi, of x]
  have rows: "\<forall>evs d. get_data x self start_index len = (evs, Inr d) \<longrightarrow>
          (\<exists>otxs rows. map_err (load_oxt_lazy x self) ?sel = Inr otxs
             \<and> map_err imu_row otxs = Inr rows \<and> imu d = Rows rows)"
  proof (intro allI impI)
    fix evs d
    assume "get_data x self start_index len = (evs, Inr d)"
    from get_data_rows [OF this] vi
    show "\<exists>otxs rows. map_err (load_oxt_lazy x self) ?sel = Inr otxs
             \<and> map_err imu_row otxs = Inr rows \<and> imu d = Rows rows"
      by auto
  qed
  have general: "\<exists>t0 t1 sel.
           velo_interval self start_index len = Inr (t0, t1)
         \<and> t0 = ?t0 \<and> t1 = ?t1
         \<and> sel = select_indices (timestamps_imu self) t0 t1
         \<and> sorted_wrt (<) sel
         \<and> set sel = {i. i < length (timestamps_imu self)
                          \<and> t0 \<le> timestamps_imu self ! i \<and> timestamps_imu self ! i < t1}
         \<and> get_data x self start_index len
             = (case map_err (get_velo_image x self)
                       (py_range start_index (start_index + len)) of
                  Inl e \<Rightarrow> ([], Inl e)
                | Inr imgs \<Rightarrow>
                    (if sel = []
                     then ([NoImuWarning start_index t0 t1], Inl UnboundLocalError)
                     else (case map_err (load_oxt_lazy x self) sel of
                             Inl e \<Rightarrow> ([], Inl e)
                           | Inr otxs \<Rightarrow>
                               (case map_err imu_row otxs of
                                  Inl e \<Rightarrow> ([], Inl e)
                                | Inr rows \<Rightarrow>
                                    (case map_err gt_row otxs of
                                       Inl e \<Rightarrow> ([], Inl e)
                                     | Inr gt \<Rightarrow>
                                         ([], Inr \<lparr> images = imgs, imu = Rows rows,
                                                    ground_truth = gt \<rparr>))))))
         \<and> (\<forall>evs d. get_data x self start_index len = (evs, Inr d) \<longrightarrow>
                (\<exists>otxs rows. map_err (load_oxt_lazy x self) sel = Inr otxs
                    \<and> map_err imu_row otxs = Inr rows \<and> imu d = Rows rows))"
    apply (rule exI [of _ ?t0], rule exI [of _ ?t1], rule exI [of _ ?sel])
    apply (intro conjI)
           apply (rule vi)
          apply (rule refl)
         apply (rule refl)
        apply (rule refl)
       apply (rule select_indices_sorted)
      apply (rule select_indices_set)
     apply (rule dec)
    apply (rule rows)
    done
  have scenario: "velo_interval scenario_session 0 2 = Inr (0, 10)
         \<and> select_indices (timestamps_imu scenario_session) 0 10 = [0, 1, 2]
         \<and> map (\<lambda>i. timestamps_imu scenario_session ! i) [0, 1, 2] = [1, 5, 9]"
    by code_simp
  from general scenario show ?thesis by (rule conjI)
qed

theorem inertial_selection_half_open_witness:
  "(0::int) \<le> 0 \<and> (1::int) \<le> 2 \<and> 0 + 2 \<le> int (length (timestamps_velo scenario_session))
   \<and> velo_interval scenario_session 0 2 = Inr (0, 10)
   \<and> set (select_indices (timestamps_imu scenario_session) 0 10) = {0, 1, 2}
   \<and> get_data demo_ext scenario_session 0 2
       = ([], Inr \<lparr> images = [''v0'', ''v1''],
                   imu = Rows [[1, 2, 3, 4, 5, 6], [1, 2, 3, 4, 5, 6], [1, 2, 3, 4, 5, 6]],
                   ground_truth = [[1, 0, 0, 1], [1, 0, 0, 1], [1, 0, 0, 1]] \<rparr>)"
proof -
  have h1: "(0::int) \<le> 0" and h2: "(1::int) \<le> 2" by simp_all
  have h3: "0 + 2 \<le> int (length (timestamps_velo scenario_session))"
    by (simp add: scenario_session_def)
  have v: "timestamps_velo scenario_session ! nat 0 = 0"
    "timestamps_velo scenario_session ! nat (0 + 2 - 1) = 10"
    by (simp_all add: scenario_session_def)
  have s: "select_indices (timestamps_imu scenario_session) 0 10 = [0, 1, 2]"
    by code_simp
  have run: "(case map_err (get_velo_image demo_ext scenario_session) (py_range 0 (0 + 2)) of
                  Inl e \<Rightarrow> ([], Inl e)
                | Inr imgs \<Rightarrow>
                    (if [0, 1, 2 :: nat] = []
                     then ([NoImuWarning 0 0 10], Inl UnboundLocalError)
                     else (case map_err (load_oxt_lazy demo_ext scenario_session) [0, 1, 2] of
                             Inl e \<Rightarrow> ([], Inl e)
                           | Inr otxs \<Rightarrow>
                               (case map_err imu_row otxs of
                                  Inl e \<Rightarrow> ([], Inl e)
                                | Inr rows \<Rightarrow>
                                    (case map_err gt_row otxs of
                                       Inl e \<Rightarrow> ([], Inl e)
                                     | Inr gt \<Rightarrow>
                                         ([], Inr \<lparr> images = imgs, imu = Rows rows,
                                                    ground_truth = gt \<rparr>))))))
       = ([] :: int event list, Inr \<lparr> images = [''v0'', ''v1''],
                   imu = Rows [[1, 2, 3, 4, 5, 6], [1, 2, 3, 4, 5, 6], [1, 2, 3, 4, 5, 6]],
                   ground_truth = [[1, 0, 0, 1], [1, 0, 0, 1], [1, 0, 0, 1]] \<rparr>)"
    by code_simp
  from inertial_selection_half_open [OF h1 h2 h3, of demo_ext] obtain t0 t1 sel where
    a: "velo_interval scenario_session 0 2 = Inr (t0, t1)"
    and t0: "t0 = timestamps_velo scenario_session ! nat 0"
    and t1: "t1 = timestamps_velo scenario_session ! nat (0 + 2 - 1)"
    and sel: "sel = select_indices (timestamps_imu scenario_session) t0 t1"
    and gd: "get_data demo_ext scenario_session 0 2
             = (case map_err (get_velo_image demo_ext scenario_session)
                       (py_range 0 (0 + 2)) of
                  Inl e \<Rightarrow> ([], Inl e)
                | Inr imgs \<Rightarrow>
                    (if sel = []
                     then ([NoImuWarning 0 t0 t1], Inl UnboundLocalError)
                     else (case map_err (load_oxt_lazy demo_ext scenario_session) sel of
                             Inl e \<Rightarrow> ([], Inl e)
                           | Inr otxs \<Rightarrow>
                               (case map_err imu_row otxs of
                                  Inl e \<Rightarrow> ([], Inl e)
                                | Inr rows \<Rightarrow>
                                    (case map_err gt_row otxs of
                                       Inl e \<Rightarrow> ([], Inl e)
                                     | Inr gt \<Rightarrow>
                                         ([], Inr \<lparr> images = imgs, imu = Rows rows,
                                                    ground_truth = gt \<rparr>))))))"
    by blast
  from t0 t1 have t: "t0 = 0" "t1 = 10" by (simp_all only: v)
  from sel have sel': "sel = [0, 1, 2]" by (simp only: t s)
  from a have i: "velo_interval scenario_session 0 2 = Inr (0, 10)" by (simp only: t)
  have st: "set (select_indices (timestamps_imu scenario_session) 0 10) = {0, 1, 2}"
    by (simp only: s) simp
  from gd have "get_data demo_ext scenario_session 0 2
       = ([], Inr \<lparr> images = [''v0'', ''v1''],
                   imu = Rows [[1, 2, 3, 4, 5, 6], [1, 2, 3, 4, 5, 6], [1, 2, 3, 4, 5, 6]],
                   ground_truth = [[1, 0, 0, 1], [1, 0, 0, 1], [1, 0, 0, 1]] \<rparr>)"
    unfolding sel' t by (simp only: run)
  with h1 h2 h3 i st show ?thesis by blast
qed

text \<open>
  Claim C5. The claim is that a window query whose interval contains no inertial
  timestamp completes and returns one fallback reading of six zeros, no reference pose,
  after one warning. The code prints the warning and assigns the six zeros, but the
  branch does not assign \<open>gt\<close>, which line 147 reads: the query raises
  \<open>UnboundLocalError\<close> and returns nothing. Here it is evaluated on the session of the
  scenario, for the window of the scans 2 and 3, whose interval \<open>[20, 30)\<close> holds no
  inertial timestamp, and through \<open>__getitem__\<close> on the data set of the split \<open>train\<close>, for
  the index 3, the first window of drive \<open>2\<close>.
\<close>

theorem no_imu_data_raises:
  "select_indices (timestamps_imu scenario_session) 20 30 = []
   \<and> imu_branch demo_ext scenario_session 2 20 30 []
       = ([NoImuWarning 2 20 30], Inr (Flat [0, 0, 0, 0, 0, 0], None))
   \<and> get_data demo_ext scenario_session 2 2
       = ([NoImuWarning 2 20 30], Inl UnboundLocalError)
   \<and> Kitti_getitem demo_ext (script_globals demo_config) demo_kitti 3
       = ([NoImuWarning 0 (2011, 9, 26, 13, 2, 40, 0) (2011, 9, 26, 13, 2, 42, 0)],
          Inl UnboundLocalError)"
  by code_simp

text \<open>
  Claim C6. Every sample returned by \<open>get_data\<close> has as many inertial readings as
  reference poses.
\<close>

theorem equal_lengths:
  assumes "get_data x self start_index len = (evs, Inr d)"
  shows "imu_len (imu d) = length (ground_truth d)"
proof -
  from get_data_rows [OF assms] obtain otxs rows gt where
    "map_err imu_row otxs = Inr rows" "map_err gt_row otxs = Inr gt"
    "imu d = Rows rows" "ground_truth d = gt" by blast
  then show ?thesis
    using map_err_length [of imu_row otxs rows] map_err_length [of gt_row otxs gt] by simp
qed

theorem equal_lengths_witness:
  "get_data demo_ext scenario_session 0 2
     = ([], Inr \<lparr> images = [''v0'', ''v1''],
                 imu = Rows [[1, 2, 3, 4, 5, 6], [1, 2, 3, 4, 5, 6], [1, 2, 3, 4, 5, 6]],
                 ground_truth = [[1, 0, 0, 1], [1, 0, 0, 1], [1, 0, 0, 1]] \<rparr>)
   \<and> imu_len (Rows [[1, 2, 3, 4, 5, 6], [1, 2, 3, 4, 5, 6], [1, 2, 3, 4, 5, 6]])
       = length [[1, 0, 0, 1], [1, 0, 0, 1], [1 :: real, 0, 0, 1]]"
proof -
  have h: "get_data demo_ext scenario_session 0 2
     = ([], Inr \<lparr> images = [''v0'', ''v1''],
                 imu = Rows [[1, 2, 3, 4, 5, 6], [1, 2, 3, 4, 5, 6], [1, 2, 3, 4, 5, 6]],
                 ground_truth = [[1, 0, 0, 1], [1, 0, 0, 1], [1, 0, 0, 1]] \<rparr>)"
    by code_simp
  from equal_lengths [OF h] h show ?thesis by simp
qed

subsection \<open>Timestamp lines\<close>

lemma take_digits_exact:
  "list_all is_digit ds \<Longrightarrow> length ds = n \<Longrightarrow> take_digits n (ds @ r) = (ds, r)"
  by (induction ds arbitrary: n) auto

lemma digit_not_space: "is_digit c \<Longrightarrow> \<not> is_space c"
  by (auto simp: is_digit_def is_space_def)

lemma digit_not_sep:
  "is_digit c \<Longrightarrow> c \<noteq> CHR ''-'' \<and> c \<noteq> CHR '':'' \<and> c \<noteq> CHR ''.'' \<and> c \<noteq> CHR '' ''"
  by (auto simp: is_digit_def)

lemma field_year_ok:
  "list_all is_digit ds \<Longrightarrow> length ds = 4 \<Longrightarrow>
   field_year (ds @ CHR ''-'' # r) = Some (int_of_digits ds, r)"
  by (simp add: field_year_def take_digits_exact)

lemma field2_ok:
  "list_all is_digit ds \<Longrightarrow> length ds = 2 \<Longrightarrow>
   field2 sep (ds @ sep # r) = Some (int_of_digits ds, r)"
  by (auto simp: field2_def take_digits_exact)

lemma field_day_ok:
  "list_all is_digit ds \<Longrightarrow> length ds = 2 \<Longrightarrow>
   field_day (ds @ r) = Some (int_of_digits ds, r)"
  by (auto simp: field_day_def take_digits_exact)

lemma spaces1_ok:
  "is_digit c \<Longrightarrow> spaces1 (CHR '' '' # c # r) = Some (c # r)"
  by (simp add: spaces1_def digit_not_space) (simp add: is_space_def)

lemma field_fraction_ok:
  "list_all is_digit ds \<Longrightarrow> length ds = 6 \<Longrightarrow> field_fraction ds = Some (int_of_digits ds)"
  using take_digits_exact [of ds 6 "[]"] by (auto simp: field_fraction_def)

lemma int_of_digits_foldl:
  "foldl (\<lambda>n c. 10 * n + digit_val c) a ds = a * 10 ^ length ds + int_of_digits ds"
proof (induction ds arbitrary: a)
  case Nil
  then show ?case by (simp add: int_of_digits_def)
next
  case (Cons c ds)
  have "foldl (\<lambda>n c. 10 * n + digit_val c) a (c # ds)
          = (10 * a + digit_val c) * 10 ^ length ds + int_of_digits ds"
    using Cons.IH [of "10 * a + digit_val c"] by simp
  moreover have "int_of_digits (c # ds) = digit_val c * 10 ^ length ds + int_of_digits ds"
    using Cons.IH [of "digit_val c"] by (simp add: int_of_digits_def)
  ultimately show ?case by (simp add: algebra_simps)
qed

lemma int_of_digits_append:
  "int_of_digits (xs @ ys) = int_of_digits xs * 10 ^ length ys + int_of_digits ys"
  using int_of_digits_foldl [of "int_of_digits xs" ys] by (simp add: int_of_digits_def)

lemma int_of_digits_bounds:
  "list_all is_digit ds \<Longrightarrow> 0 \<le> int_of_digits ds \<and> int_of_digits ds < 10 ^ length ds"
proof (induction ds rule: rev_induct)
  case Nil
  then show ?case by (simp add: int_of_digits_def)
next
  case (snoc c ds)
  then have ih: "0 \<le> int_of_digits ds" "int_of_digits ds < 10 ^ length ds"
    and c: "0 \<le> digit_val c" "digit_val c \<le> 9"
    by (auto simp: is_digit_def digit_val_def)
  have eq: "int_of_digits (ds @ [c]) = int_of_digits ds * 10 + digit_val c"
    using int_of_digits_append [of ds "[c]"] by (simp add: int_of_digits_def)
  from ih(2) have "int_of_digits ds + 1 \<le> 10 ^ length ds" by simp
  then have "(int_of_digits ds + 1) * 10 \<le> 10 ^ length ds * 10" by simp
  with ih c show ?case by (simp add: eq algebra_simps)
qed

lemma truncate_nanoseconds:
  assumes "list_all is_digit fs" and "length fs = 9"
  shows "int_of_digits (take 6 fs) = int_of_digits fs div 1000"
proof -
  have d: "list_all is_digit (drop 6 fs)"
    using assms(1) by (auto simp: list_all_iff dest: in_set_dropD)
  from int_of_digits_bounds [OF d] assms(2)
  have b: "0 \<le> int_of_digits (drop 6 fs)" "int_of_digits (drop 6 fs) < 1000" by auto
  have "int_of_digits fs = int_of_digits (take 6 fs) * 1000 + int_of_digits (drop 6 fs)"
    using int_of_digits_append [of "take 6 fs" "drop 6 fs"] assms(2) by simp
  with b show ?thesis by simp
qed

text \<open>One line, given by its fields.\<close>

lemma parse_line_truncated:
  assumes Y: "list_all is_digit Y" "length Y = 4"
    and m: "list_all is_digit m" "length m = 2"
    and d: "list_all is_digit d" "length d = 2"
    and H: "list_all is_digit H" "length H = 2"
    and M: "list_all is_digit M" "length M = 2"
    and S: "list_all is_digit S" "length S = 2"
    and fs: "list_all is_digit fs" "length fs = 9"
    and valid: "valid_datetime (int_of_digits Y, int_of_digits m, int_of_digits d,
                  int_of_digits H, int_of_digits M, int_of_digits S, int_of_digits fs div 1000)"
  shows "parse_timestamp_line
           (Y @ ''-'' @ m @ ''-'' @ d @ '' '' @ H @ '':'' @ M @ '':'' @ S @ ''.'' @ fs
              @ [CHR 0x0A])
         = Inr (int_of_digits Y, int_of_digits m, int_of_digits d,
                int_of_digits H, int_of_digits M, int_of_digits S, int_of_digits fs div 1000)"
proof -
  let ?line = "Y @ ''-'' @ m @ ''-'' @ d @ '' '' @ H @ '':'' @ M @ '':'' @ S @ ''.'' @ fs
                 @ [CHR 0x0A]"
  let ?f6 = "take 6 fs"
  have cut: "take (length ?line - 4) ?line
               = Y @ CHR ''-'' # m @ CHR ''-'' # d @ CHR '' '' # H @ CHR '':'' # M @ CHR '':'' # S
                   @ CHR ''.'' # ?f6"
    using Y(2) m(2) d(2) H(2) M(2) S(2) fs(2) by simp
  have f6: "list_all is_digit ?f6" "length ?f6 = 6"
    using fs by (auto simp: list_all_iff dest: in_set_takeD)
  obtain h1 h2 where Hs: "H = [h1, h2]"
    using H(2) by (cases H; cases "tl H") (auto simp: length_Suc_conv)
  with H(1) have h1: "is_digit h1" by simp
  have sp: "spaces1 (CHR '' '' # H @ CHR '':'' # M @ CHR '':'' # S @ CHR ''.'' # ?f6)
              = Some (H @ CHR '':'' # M @ CHR '':'' # S @ CHR ''.'' # ?f6)"
    using spaces1_ok [OF h1] by (simp add: Hs)
  have "parse_fields (take (length ?line - 4) ?line)
          = Some (int_of_digits Y, int_of_digits m, int_of_digits d,
                  int_of_digits H, int_of_digits M, int_of_digits S, int_of_digits ?f6)"
    unfolding cut parse_fields_def
    by (simp add: field_year_ok [OF Y] field2_ok [OF m] field_day_ok [OF d] sp
          field2_ok [OF H] field2_ok [OF M] field2_ok [OF S] field_fraction_ok [OF f6])
  with valid show ?thesis
    by (simp add: parse_timestamp_line_def strptime_def truncate_nanoseconds [OF fs])
qed

lemma parse_stamp_line:
  assumes "well_formed_stamp f"
  shows "parse_timestamp_line (stamp_line f) = Inr (truncated_stamp f)"
proof -
  obtain Y m d H M S fs where f: "f = (Y, m, d, H, M, S, fs)"
    by (cases f) auto
  from assms have wf:
    "list_all is_digit Y" "length Y = 4" "list_all is_digit m" "length m = 2"
    "list_all is_digit d" "length d = 2" "list_all is_digit H" "length H = 2"
    "list_all is_digit M" "length M = 2" "list_all is_digit S" "length S = 2"
    "list_all is_digit fs" "length fs = 9"
    "valid_datetime (int_of_digits Y, int_of_digits m, int_of_digits d,
       int_of_digits H, int_of_digits M, int_of_digits S, int_of_digits fs div 1000)"
    by (simp_all add: f well_formed_stamp_def truncated_stamp_def)
  from parse_line_truncated [OF wf] show ?thesis
    by (simp add: f stamp_line_def truncated_stamp_def)
qed

lemma map_err_map:
  "\<forall>a\<in>set as. f (h a) = Inr (g a) \<Longrightarrow> map_err f (map h as) = Inr (map g as)"
  by (induction as) auto

lemma parse_stamp_lines:
  "list_all well_formed_stamp fs \<Longrightarrow>
   map_err parse_timestamp_line (map stamp_line fs) = Inr (map truncated_stamp fs)"
  by (rule map_err_map) (simp add: list_all_iff parse_stamp_line)

text \<open>
  Claim C8. Let the two timestamp files of a session hold lines of the form
  \<open>YYYY-MM-DD HH:MM:SS.\<close> followed by nine digits and a newline, each a date and time that
  exists. Then each line is parsed into the time of its fields with the nanoseconds
  divided by 1000, rounded down, as microseconds: the last three digits are discarded.
  \<open>_load_timestamps\<close> returns these timestamps, line by line, for the inertial file and for
  the scan file, and they are the timestamps of the session that \<open>KittiRawData\<close>
  constructs; the construction succeeds when the configuration has the four keys of the
  projector.
\<close>

theorem timestamp_line_truncated:
  assumes imu: "readlines x (path_join (path_join base_path [date_v, drive_v])
                    [''oxts'', ''timestamps.txt'']) = Inr (map stamp_line fi)"
    and velo: "readlines x (path_join (path_join base_path [date_v, drive_v])
                    [''velodyne_points'', ''timestamps.txt'']) = Inr (map stamp_line fv)"
    and wf: "list_all well_formed_stamp (fi @ fv)"
  shows "(\<forall>f\<in>set (fi @ fv). parse_timestamp_line (stamp_line f) = Inr (truncated_stamp f))
       \<and> load_timestamps x (path_join base_path [date_v, drive_v])
           = Inr (map truncated_stamp fi, map truncated_stamp fv)
       \<and> (\<forall>s. KittiRawData_init x base_path date_v drive_v cfg frames_v = Inr s \<longrightarrow>
              timestamps_imu s = map truncated_stamp fi
            \<and> timestamps_velo s = map truncated_stamp fv)
       \<and> (cfg_image_width cfg \<noteq> None \<and> cfg_image_height cfg \<noteq> None
            \<and> cfg_fov_up cfg \<noteq> None \<and> cfg_fov_down cfg \<noteq> None \<longrightarrow>
            (\<exists>s. KittiRawData_init x base_path date_v drive_v cfg frames_v = Inr s))"
proof -
  let ?dp = "path_join base_path [date_v, drive_v]"
  from wf have wfi: "list_all well_formed_stamp fi" and wfv: "list_all well_formed_stamp fv"
    by simp_all
  have each: "\<forall>f\<in>set (fi @ fv). parse_timestamp_line (stamp_line f) = Inr (truncated_stamp f)"
    using wf by (simp add: list_all_iff parse_stamp_line del: set_append)
  have lt: "load_timestamps x ?dp = Inr (map truncated_stamp fi, map truncated_stamp fv)"
    by (simp add: load_timestamps_def Let_def imu velo
          parse_stamp_lines [OF wfi] parse_stamp_lines [OF wfv])
  have ok: "\<forall>s. KittiRawData_init x base_path date_v drive_v cfg frames_v = Inr s \<longrightarrow>
              timestamps_imu s = map truncated_stamp fi
            \<and> timestamps_velo s = map truncated_stamp fv"
    by (auto simp: KittiRawData_init_def Let_def lt split: sum.splits prod.splits)
  have ex: "cfg_image_width cfg \<noteq> None \<and> cfg_image_height cfg \<noteq> None
            \<and> cfg_fov_up cfg \<noteq> None \<and> cfg_fov_down cfg \<noteq> None \<longrightarrow>
            (\<exists>s. KittiRawData_init x base_path date_v drive_v cfg frames_v = Inr s)"
    by (auto simp: KittiRawData_init_def Let_def lt getitem_key_def
             split: sum.splits prod.splits option.splits)
  from each lt ok ex show ?thesis by blast
qed

theorem timestamp_line_truncated_witness:
  "readlines demo_ext (path_join (path_join ''/k'' [''d'', ''1''])
       [''oxts'', ''timestamps.txt'']) = Inr (map stamp_line demo_imu1)
   \<and> readlines demo_ext (path_join (path_join ''/k'' [''d'', ''1''])
       [''velodyne_points'', ''timestamps.txt'']) = Inr (map stamp_line demo_velo1)
   \<and> list_all well_formed_stamp (demo_imu1 @ demo_velo1)
   \<and> stamp_line (demo_fields ''20'' ''100000445'')
       = ''2011-09-26 13:02:20.100000445'' @ [CHR 0x0A]
   \<and> parse_timestamp_line (''2011-09-26 13:02:20.100000445'' @ [CHR 0x0A])
       = Inr (2011, 9, 26, 13, 2, 20, 100000)
   \<and> load_timestamps demo_ext (path_join ''/k'' [''d'', ''1''])
       = Inr ([(2011, 9, 26, 13, 2, 20, 100000), (2011, 9, 26, 13, 2, 20, 600000),
               (2011, 9, 26, 13, 2, 21, 200000), (2011, 9, 26, 13, 2, 23, 500000)],
              [(2011, 9, 26, 13, 2, 20, 0), (2011, 9, 26, 13, 2, 21, 0),
               (2011, 9, 26, 13, 2, 22, 0), (2011, 9, 26, 13, 2, 23, 0),
               (2011, 9, 26, 13, 2, 24, 0)])
   \<and> KittiRawData_init demo_ext ''/k'' ''d'' ''1'' demo_ds_config None = Inr demo_drive1
   \<and> timestamps_imu demo_drive1 = map truncated_stamp demo_imu1
   \<and> timestamps_velo demo_drive1 = map truncated_stamp demo_velo1"
proof -
  have h1: "readlines demo_ext (path_join (path_join ''/k'' [''d'', ''1''])
       [''oxts'', ''timestamps.txt'']) = Inr (map stamp_line demo_imu1)"
    by code_simp
  have h2: "readlines demo_ext (path_join (path_join ''/k'' [''d'', ''1''])
       [''velodyne_points'', ''timestamps.txt'']) = Inr (map stamp_line demo_velo1)"
    by code_simp
  have h3: "list_all well_formed_stamp (demo_imu1 @ demo_velo1)"
    by code_simp
  have mem: "demo_fields ''20'' ''100000445'' \<in> set (demo_imu1 @ demo_velo1)"
    by (simp add: demo_imu1_def)
  have ln: "stamp_line (demo_fields ''20'' ''100000445'')
       = ''2011-09-26 13:02:20.100000445'' @ [CHR 0x0A]"
    by code_simp
  have tr: "truncated_stamp (demo_fields ''20'' ''100000445'') = (2011, 9, 26, 13, 2, 20, 100000)"
    by code_simp
  have mi: "map truncated_stamp demo_imu1
       = [(2011, 9, 26, 13, 2, 20, 100000), (2011, 9, 26, 13, 2, 20, 600000),
          (2011, 9, 26, 13, 2, 21, 200000), (2011, 9, 26, 13, 2, 23, 500000)]"
    by code_simp
  have mv: "map truncated_stamp demo_velo1
       = [(2011, 9, 26, 13, 2, 20, 0), (2011, 9, 26, 13, 2, 21, 0),
          (2011, 9, 26, 13, 2, 22, 0), (2011, 9, 26, 13, 2, 23, 0),
          (2011, 9, 26, 13, 2, 24, 0)]"
    by code_simp
  have init: "KittiRawData_init demo_ext ''/k'' ''d'' ''1'' demo_ds_config None = Inr demo_drive1"
    by code_simp
  note t = timestamp_line_truncated [OF h1 h2 h3, of demo_ds_config None]
  from t mem have p: "parse_timestamp_line (stamp_line (demo_fields ''20'' ''100000445''))
      = Inr (truncated_stamp (demo_fields ''20'' ''100000445''))"
    by blast
  from t have l: "load_timestamps demo_ext (path_join ''/k'' [''d'', ''1''])
           = Inr (map truncated_stamp demo_imu1, map truncated_stamp demo_velo1)"
    by blast
  from t init have ts: "timestamps_imu demo_drive1 = map truncated_stamp demo_imu1"
    "timestamps_velo demo_drive1 = map truncated_stamp demo_velo1"
    by blast+
  from p have p': "parse_timestamp_line (''2011-09-26 13:02:20.100000445'' @ [CHR 0x0A])
       = Inr (2011, 9, 26, 13, 2, 20, 100000)"
    by (simp only: ln tr)
  from l have l': "load_timestamps demo_ext (path_join ''/k'' [''d'', ''1''])
       = Inr ([(2011, 9, 26, 13, 2, 20, 100000), (2011, 9, 26, 13, 2, 20, 600000),
               (2011, 9, 26, 13, 2, 21, 200000), (2011, 9, 26, 13, 2, 23, 500000)],
              [(2011, 9, 26, 13, 2, 20, 0), (2011, 9, 26, 13, 2, 21, 0),
               (2011, 9, 26, 13, 2, 22, 0), (2011, 9, 26, 13, 2, 23, 0),
               (2011, 9, 26, 13, 2, 24, 0)])"
    by (simp only: mi mv)
  from h1 h2 h3 ln p' l' init ts show ?thesis by blast
qed

subsection \<open>The bin table built by the constructor\<close>

lemma extends_refl: "extends w st st []"
  by (simp add: extends_def windows_Nil)

lemma extends_trans:
  "extends w st st1 new1 \<Longrightarrow> extends w st1 st2 new2 \<Longrightarrow> extends w st st2 (new1 @ new2)"
  by (simp add: extends_def bins_from_append windows_append algebra_simps)

lemma add_drive_extends:
  "add_drive x root_path ds_cfg w date_v drive_v st = Inr st' \<Longrightarrow>
   \<exists>ds. extends w st st' [ds]"
  by (auto simp: add_drive_def extends_def Let_def windows_Cons windows_Nil
           split: sum.splits)

lemma drives_loop_extends:
  "drives_loop x root_path ds_cfg w date_v drives st = Inr st' \<Longrightarrow>
   \<exists>new. extends w st st' new"
proof (induction drives arbitrary: st)
  case Nil
  then show ?case using extends_refl by auto
next
  case (Cons drive_v drives)
  from Cons.prems obtain st1 where
    a: "add_drive x root_path ds_cfg w date_v drive_v st = Inr st1" and
    b: "drives_loop x root_path ds_cfg w date_v drives st1 = Inr st'"
    by (auto split: sum.splits)
  from add_drive_extends [OF a] Cons.IH [OF b] show ?case
    using extends_trans by blast
qed

lemma dates_loop_extends:
  "dates_loop x root_path ds_cfg w items st = Inr st' \<Longrightarrow> \<exists>new. extends w st st' new"
proof (induction items arbitrary: st)
  case Nil
  then show ?case using extends_refl by auto
next
  case (Cons item items)
  obtain date_v drives where item: "item = (date_v, drives)" by (cases item)
  from Cons.prems obtain st1 where
    a: "drives_loop x root_path ds_cfg w date_v drives st = Inr st1" and
    b: "dates_loop x root_path ds_cfg w items st1 = Inr st'"
    by (auto simp: item split: sum.splits)
  from drives_loop_extends [OF a] Cons.IH [OF b] show ?case
    using extends_trans by blast
qed

lemma flatten_bins_last:
  "py_index (flatten_bins bs) (- 1) = Inr v \<Longrightarrow> bs \<noteq> [] \<and> v = snd (last bs)"
proof (induction bs rule: rev_induct)
  case Nil
  then show ?case by (simp add: flatten_bins_def py_index_def)
next
  case (snoc b bs)
  have "flatten_bins (bs @ [b]) = flatten_bins bs @ [fst b, snd b]"
    by (simp add: flatten_bins_def)
  moreover have "py_index (ys @ [p, q]) (- 1) = Inr q" for ys :: "int list" and p q
  proof -
    have "nat (int (length (ys @ [p, q])) + - 1) = Suc (length ys)" by simp
    then show ?thesis
      by (simp add: py_index_def Let_def nth_append del: length_append)
  qed
  ultimately show ?case using snoc.prems by simp
qed

lemma Kitti_init_table:
  assumes "Kitti_init x g config ds_type_v transform_v = Inr K"
  shows "bins K = bins_from (seq_size K) 0 (map KittiRawData_len (dataset K))"
    and "length_each_drive K = map KittiRawData_len (dataset K)"
    and "dataset K \<noteq> []"
    and "self_length K = windows (seq_size K) (map KittiRawData_len (dataset K))"
proof -
  from assms obtain cfg ds_cfg root_path items st last_end where
    loop: "dates_loop x root_path ds_cfg (seq_size K) items
             \<lparr> st_dataset = [], st_length_each_drive = [], st_bins = [], last_bin_end = - 1 \<rparr>
           = Inr st"
    and last: "py_index (flatten_bins (st_bins st)) (- 1) = Inr last_end"
    and K: "dataset K = st_dataset st" "length_each_drive K = st_length_each_drive st"
      "bins K = st_bins st" "self_length K = last_end + 1"
    by (auto simp: Kitti_init_def split: option.splits sum.splits)
  from dates_loop_extends [OF loop] obtain new where
    "extends (seq_size K) \<lparr> st_dataset = [], st_length_each_drive = [], st_bins = [],
        last_bin_end = - 1 \<rparr> st new" by blast
  then have st: "st_dataset st = new" "st_length_each_drive st = map KittiRawData_len new"
    "st_bins st = bins_from (seq_size K) 0 (map KittiRawData_len new)"
    by (simp_all add: extends_def)
  show b: "bins K = bins_from (seq_size K) 0 (map KittiRawData_len (dataset K))"
    by (simp add: K st)
  show "length_each_drive K = map KittiRawData_len (dataset K)"
    by (simp add: K st)
  from flatten_bins_last [OF last] have ne: "st_bins st \<noteq> []" and le: "last_end = snd (last (st_bins st))"
    by simp_all
  from ne show d: "dataset K \<noteq> []"
    by (auto simp: K st)
  from d have "map KittiRawData_len (dataset K) \<noteq> []" by simp
  from bins_from_last [OF this, of "seq_size K" 0] le
  show "self_length K = windows (seq_size K) (map KittiRawData_len (dataset K))"
    by (simp add: K st)
qed

lemma demo_init:
  "Kitti_init demo_ext (script_globals demo_config) c ''train'' (None :: unit option)
     = Inr demo_kitti"
  by code_simp

lemma demo_val_init:
  "Kitti_init demo_ext (script_globals demo_config) c ''val'' (None :: unit option)
     = Inr demo_val"
  by code_simp

lemma demo_long_init:
  "Kitti_init demo_ext (script_globals (demo_config\<lparr>cfg_sequence_size := Some 5\<rparr>)) c ''train''
     (None :: unit option) = Inr demo_long"
  by code_simp

lemma windows_sum:
  "windows w (map KittiRawData_len ds) = (\<Sum>s\<leftarrow>ds. KittiRawData_len s - w + 1)"
  by (simp add: windows_def comp_def)

text \<open>
  Claim C3. After a construction that succeeded, there is one bin for each session, the
  first bin starts at 0, the end of each bin is its start plus the length of its session
  minus the window length, each bin starts one after the end of the bin before it, and
  the length of the data set is the sum over the sessions of
  \<open>length - window_length + 1\<close>. This holds for sessions of every length, so also when
  each is at least as long as the window. For the two drives of the split \<open>train\<close>, of
  lengths 5 and 4, and the window length 3 the bins are \<open>[0, 2]\<close> and \<open>[3, 4]\<close> and the
  length is 5.
\<close>

theorem bin_table:
  assumes "Kitti_init x g config ds_type_v transform_v = Inr K"
  shows "length (bins K) = length (dataset K)
       \<and> fst (bins K ! 0) = 0
       \<and> (\<forall>k<length (bins K).
             snd (bins K ! k)
               = fst (bins K ! k) + KittiRawData_len (dataset K ! k) - seq_size K)
       \<and> (\<forall>k. Suc k < length (bins K) \<longrightarrow> snd (bins K ! k) + 1 = fst (bins K ! Suc k))
       \<and> Kitti_len K = (\<Sum>s\<leftarrow>dataset K. KittiRawData_len s - seq_size K + 1)
       \<and> (Kitti_init demo_ext (script_globals demo_config) demo_config ''train''
             (None :: unit option) = Inr demo_kitti
          \<and> map KittiRawData_len (dataset demo_kitti) = [5, 4]
          \<and> seq_size demo_kitti = 3
          \<and> bins demo_kitti = [(0, 2), (3, 4)]
          \<and> Kitti_len demo_kitti = 5)"
proof -
  let ?w = "seq_size K"
  let ?lens = "map KittiRawData_len (dataset K)"
  note t = Kitti_init_table [OF assms]
  have len: "length (bins K) = length (dataset K)"
    by (simp add: t(1) length_bins_from)
  have nth: "bins K ! k = (windows ?w (take k ?lens),
                           windows ?w (take k ?lens) + KittiRawData_len (dataset K ! k) - ?w)"
    if "k < length (dataset K)" for k
    using bins_from_nth [of k ?lens ?w 0] that by (simp add: t(1) [symmetric])
  have first: "fst (bins K ! 0) = 0"
    using nth [of 0] t(3) by (simp add: windows_Nil)
  have ends: "\<forall>k<length (bins K).
             snd (bins K ! k) = fst (bins K ! k) + KittiRawData_len (dataset K ! k) - ?w"
    using nth len by simp
  have contig: "\<forall>k. Suc k < length (bins K) \<longrightarrow> snd (bins K ! k) + 1 = fst (bins K ! Suc k)"
  proof (intro allI impI)
    fix k assume k: "Suc k < length (bins K)"
    then have "take (Suc k) ?lens = take k ?lens @ [KittiRawData_len (dataset K ! k)]"
      using len by (simp add: take_Suc_conv_app_nth)
    then have "windows ?w (take (Suc k) ?lens)
                 = windows ?w (take k ?lens) + (KittiRawData_len (dataset K ! k) - ?w + 1)"
      by (simp add: windows_append windows_Cons windows_Nil)
    with nth [of k] nth [of "Suc k"] k len
    show "snd (bins K ! k) + 1 = fst (bins K ! Suc k)" by simp
  qed
  have total: "Kitti_len K = (\<Sum>s\<leftarrow>dataset K. KittiRawData_len s - ?w + 1)"
    by (simp add: Kitti_len_def t(4) windows_sum)
  have ex1: "Kitti_init demo_ext (script_globals demo_config) demo_config ''train''
             (None :: unit option) = Inr demo_kitti"
    by (rule demo_init)
  have ex2: "map KittiRawData_len (dataset demo_kitti) = [5, 4]
          \<and> seq_size demo_kitti = 3
          \<and> bins demo_kitti = [(0, 2), (3, 4)]
          \<and> Kitti_len demo_kitti = 5"
    by code_simp
  from len first ends contig total ex1 ex2 show ?thesis by blast
qed

theorem bin_table_witness:
  "Kitti_init demo_ext (script_globals demo_config) demo_config ''val'' (None :: unit option)
     = Inr demo_val
   \<and> fst (bins demo_val ! 0) = 0
   \<and> Kitti_len demo_val = 3"
proof -
  have h: "Kitti_init demo_ext (script_globals demo_config) demo_config ''val''
             (None :: unit option) = Inr demo_val"
    by (rule demo_val_init)
  have "(\<Sum>s\<leftarrow>dataset demo_val. KittiRawData_len s - seq_size demo_val + 1) = 3"
    by code_simp
  with bin_table [OF h] h show ?thesis by simp
qed

text \<open>
  Claim C4, as stated: the construction fails with \<open>SessionTooShort\<close> whenever a session
  has fewer scans than the window length. The constructor has no such check and no such
  error: with the window length 5, drive \<open>2\<close>, of four scans, is accepted and gets the
  bin \<open>[1, 0]\<close>.
\<close>

theorem short_session_counterexample:
  "Kitti_init demo_ext (script_globals (demo_config\<lparr>cfg_sequence_size := Some 5\<rparr>))
       demo_config ''train'' (None :: unit option) = Inr demo_long
   \<and> KittiRawData_len (dataset demo_long ! 1) < seq_size demo_long
   \<and> bins demo_long = [(0, 0), (1, 0)]"
  by code_simp

text \<open>
  Claim C4, amended. The constructor does not check the length of a session. When the
  construction succeeds, a session with fewer scans than the window length has its bin
  like every other session, \<open>[start, start + length - window_length]\<close>; the end of this
  bin is smaller than its start, so that the bin holds no index and the search of
  \<open>__getitem__\<close> never answers with this session.
\<close>

theorem short_session_empty_bin:
  assumes init: "Kitti_init x g config ds_type_v transform_v = Inr K"
    and k: "k < length (dataset K)"
    and short: "KittiRawData_len (dataset K ! k) < seq_size K"
  shows "length (bins K) = length (dataset K)
       \<and> snd (bins K ! k) = fst (bins K ! k) + KittiRawData_len (dataset K ! k) - seq_size K
       \<and> snd (bins K ! k) < fst (bins K ! k)
       \<and> (\<forall>index. \<not> in_bin index (bins K ! k))
       \<and> (\<forall>index. snd (find_bin (bins K) index 0) \<noteq> int k)"
proof -
  note t = Kitti_init_table [OF init]
  have len: "length (bins K) = length (dataset K)"
    by (simp add: t(1) length_bins_from)
  have bk: "snd (bins K ! k) = fst (bins K ! k) + KittiRawData_len (dataset K ! k) - seq_size K"
    using bins_from_nth [of k "map KittiRawData_len (dataset K)" "seq_size K" 0] k
    by (simp add: t(1) [symmetric])
  with short have empty: "snd (bins K ! k) < fst (bins K ! k)" by simp
  then have never: "\<forall>index. \<not> in_bin index (bins K ! k)"
    by (auto simp: in_bin_def)
  have "\<forall>index. snd (find_bin (bins K) index 0) \<noteq> int k"
  proof
    fix index
    show "snd (find_bin (bins K) index 0) \<noteq> int k"
    proof
      assume eq: "snd (find_bin (bins K) index 0) = int k"
      obtain idx nd where r: "find_bin (bins K) index 0 = (idx, nd)"
        by (cases "find_bin (bins K) index 0")
      with eq have nd: "nd = int k" by simp
      from find_bin_sound [OF r] nd obtain k' where
        "nd = 0 + int k'" "in_bin index (bins K ! k')" by auto
      with nd never show False by simp
    qed
  qed
  with len bk empty never show ?thesis by blast
qed

theorem short_session_empty_bin_witness:
  "Kitti_init demo_ext (script_globals (demo_config\<lparr>cfg_sequence_size := Some 5\<rparr>))
       demo_config ''train'' (None :: unit option) = Inr demo_long
   \<and> 1 < length (dataset demo_long)
   \<and> KittiRawData_len (dataset demo_long ! 1) < seq_size demo_long
   \<and> length (bins demo_long) = length (dataset demo_long)
   \<and> snd (bins demo_long ! 1) < fst (bins demo_long ! 1)
   \<and> (\<forall>index. snd (find_bin (bins demo_long) index 0) \<noteq> 1)"
proof -
  have h: "Kitti_init demo_ext (script_globals (demo_config\<lparr>cfg_sequence_size := Some 5\<rparr>))
       demo_config ''train'' (None :: unit option) = Inr demo_long"
    by (rule demo_long_init)
  have k: "1 < length (dataset demo_long)" by code_simp
  have s: "KittiRawData_len (dataset demo_long ! 1) < seq_size demo_long" by code_simp
  from short_session_empty_bin [OF h k s] h k s show ?thesis by simp
qed

subsection \<open>The lookup \<open>__getitem__\<close>\<close>

lemma Kitti_init_bins_range:
  assumes "Kitti_init x g config ds_type_v transform_v = Inr K"
    and "\<forall>s\<in>set (dataset K). seq_size K \<le> KittiRawData_len s"
    and "b \<in> set (bins K)"
  shows "0 \<le> fst b \<and> snd b < self_length K"
proof -
  note t = Kitti_init_table [OF assms(1)]
  have "\<forall>l\<in>set (map KittiRawData_len (dataset K)). seq_size K \<le> l"
    using assms(2) by simp
  from bins_from_range [OF this, of b 0] assms(3) show ?thesis
    by (simp add: t(1) [symmetric] t(4))
qed





text \<open>
  Claim C7, as stated: the lookup of an index outside \<open>[0, length)\<close> fails with an
  out-of-range error. For the split \<open>val\<close>, one session with 5 scans and the window
  length 3, the lookup of index 3 raises nothing: it prints the message of line 224 and
  returns \<open>None\<close>.
\<close>

theorem out_of_range_counterexample:
  "Kitti_init demo_ext (script_globals demo_config) demo_config ''val'' (None :: unit option)
     = Inr demo_val
   \<and> map KittiRawData_len (dataset demo_val) = [5]
   \<and> seq_size demo_val = 3
   \<and> Kitti_len demo_val = 3
   \<and> Kitti_getitem demo_ext (script_globals demo_config) demo_val 3 = ([NoBinsError], Inr None)"
  by code_simp

text \<open>
  Claim C7, amended. When every session is at least as long as the window, the lookup
  of an index outside \<open>[0, length)\<close> prints one message, that no bin and no drive number
  was found, and returns \<open>None\<close> to the caller; it raises no error.
\<close>

theorem out_of_range_returns_None:
  assumes init: "Kitti_init x g config ds_type_v transform_v = Inr K"
    and long: "\<forall>s\<in>set (dataset K). seq_size K \<le> KittiRawData_len s"
    and out: "index < 0 \<or> Kitti_len K \<le> index"
  shows "Kitti_getitem x g' K index = ([NoBinsError], Inr None)"
proof -
  have "\<forall>b\<in>set (bins K). \<not> in_bin index b"
  proof
    fix b assume "b \<in> set (bins K)"
    from Kitti_init_bins_range [OF init long this] out
    show "\<not> in_bin index b" by (auto simp: in_bin_def Kitti_len_def)
  qed
  from find_bin_none [OF this] show ?thesis
    by (simp add: Kitti_getitem_def)
qed

theorem out_of_range_returns_None_witness:
  "Kitti_init demo_ext (script_globals demo_config) demo_config ''val'' (None :: unit option)
     = Inr demo_val
   \<and> Kitti_len demo_val \<le> 3
   \<and> Kitti_getitem demo_ext import_globals demo_val 3 = ([NoBinsError], Inr None)"
proof -
  have h: "Kitti_init demo_ext (script_globals demo_config) demo_config ''val''
             (None :: unit option) = Inr demo_val"
    by (rule demo_val_init)
  have l: "\<forall>s\<in>set (dataset demo_val). seq_size demo_val \<le> KittiRawData_len s" by code_simp
  have o: "(3::int) < 0 \<or> Kitti_len demo_val \<le> 3" by code_simp
  have o': "Kitti_len demo_val \<le> 3" by code_simp
  from out_of_range_returns_None [OF h l o, where g' = import_globals] h o'
  show ?thesis by blast
qed

end
